theory Spec2Isabelle
  imports Main "HOL-Library.AList"
begin

section \<open>Data model\<close>

text \<open>
  The proxy works on Go values that are shared through pointers: a request's URL is a
  pointer, a header is a map whose values are slices over backing arrays, a body is a
  reader over a buffer or a network stream. The model keeps these objects in an explicit
  store, one table per kind of object; an address is an index into its table and an
  allocation appends to the table.
\<close>

type_synonym addr = nat

record url =
  Scheme :: string
  URLHost :: string
  URLPath :: string
  RawQuery :: string
  Fragment :: string

text \<open>A body stream of the network: the bytes it still delivers, whether it then ends
  with a read error instead of end-of-file, and whether it has been closed.\<close>

record stream =
  pending :: string
  broken :: bool
  closed :: bool

record heap =
  urls :: "url list"
  hdrs :: "(string \<times> addr) list list"
  arrs :: "string list list"
  bufs :: "string list"
  streams :: "stream list"

text \<open>A request body is the stream of the inbound connection, or the source's
  \<open>nopCloser\<close> around a byte buffer.\<close>

datatype body = netBody addr | nopCloser addr

record request =
  Method :: string
  URL :: addr
  Proto :: string
  ProtoMajor :: int
  ProtoMinor :: int
  Header :: addr
  Body :: body
  Host :: string
  ContentLength :: int

subsection \<open>Reading the store\<close>

text \<open>The header of a request as the Go map it denotes: key to list of values.\<close>

definition header_of :: "heap \<Rightarrow> addr \<Rightarrow> string \<Rightarrow> string list option" where
  "header_of h m = (\<lambda>k. map_option (\<lambda>a. arrs h ! a) (map_of (hdrs h ! m) k))"

text \<open>The bytes a body still holds.\<close>

definition body_bytes :: "heap \<Rightarrow> body \<Rightarrow> string" where
  "body_bytes h b =
     (case b of
        netBody s \<Rightarrow> (if closed (streams h ! s) then [] else pending (streams h ! s))
      | nopCloser a \<Rightarrow> bufs h ! a)"

definition url_of :: "heap \<Rightarrow> request \<Rightarrow> url" where
  "url_of h r = urls h ! URL r"

text \<open>The array addresses a header map refers to.\<close>

definition reach :: "heap \<Rightarrow> addr \<Rightarrow> addr set" where
  "reach h m = snd ` set (hdrs h ! m)"

text \<open>A request is well formed in a store when its pointers are allocated and its header
  is a Go map: no key occurs twice.\<close>

definition wf_request :: "heap \<Rightarrow> request \<Rightarrow> bool" where
  "wf_request h r =
     (URL r < length (urls h) \<and> Header r < length (hdrs h) \<and>
      distinct (map fst (hdrs h ! Header r)) \<and>
      list_all (\<lambda>a. a < length (arrs h)) (map snd (hdrs h ! Header r)) \<and>
      (case Body r of netBody s \<Rightarrow> s < length (streams h)
                    | nopCloser a \<Rightarrow> a < length (bufs h)))"

section \<open>The request duplicator\<close>

subsection \<open>Library operations used by \<open>DuplicateRequest\<close>\<close>

text \<open>\<open>new(bytes.Buffer)\<close> and \<open>http.Header{}\<close>: a fresh empty object.\<close>

definition new_Buffer :: "heap \<Rightarrow> addr \<times> heap" where
  "new_Buffer h = (length (bufs h), h\<lparr>bufs := bufs h @ [[]]\<rparr>)"

definition new_Header :: "heap \<Rightarrow> addr \<times> heap" where
  "new_Header h = (length (hdrs h), h\<lparr>hdrs := hdrs h @ [[]]\<rparr>)"

text \<open>Reading a body to its end: the bytes delivered, and the store with the source
  drained. A read error ends the reading like end-of-file does; the bytes delivered
  before it have been handed over.\<close>

definition drain :: "body \<Rightarrow> heap \<Rightarrow> string \<times> heap" where
  "drain b h =
     (case b of
        netBody s \<Rightarrow>
          (if closed (streams h ! s) then ([], h)
           else (pending (streams h ! s),
                 h\<lparr>streams := (streams h)[s := (streams h ! s)\<lparr>pending := []\<rparr>]\<rparr>))
      | nopCloser a \<Rightarrow> (bufs h ! a, h\<lparr>bufs := (bufs h)[a := []]\<rparr>))"

definition buf_write :: "addr \<Rightarrow> string \<Rightarrow> heap \<Rightarrow> heap" where
  "buf_write b bs h = h\<lparr>bufs := (bufs h)[b := bufs h ! b @ bs]\<rparr>"

text \<open>\<open>io.Copy(io.MultiWriter(b1, b2), src)\<close>. The source discards the error that
  \<open>io.Copy\<close> returns, so the model returns the store only.\<close>

definition io_Copy :: "addr \<Rightarrow> addr \<Rightarrow> body \<Rightarrow> heap \<Rightarrow> heap" where
  "io_Copy b1 b2 src h =
     (let (bs, h) = drain src h in buf_write b2 bs (buf_write b1 bs h))"

definition Close :: "body \<Rightarrow> heap \<Rightarrow> heap" where
  "Close b h =
     (case b of
        netBody s \<Rightarrow> h\<lparr>streams := (streams h)[s := (streams h ! s)\<lparr>closed := True\<rparr>]\<rparr>
      | nopCloser a \<Rightarrow> h)"

text \<open>\<open>values := make([]string, len(v)); copy(values, v)\<close>: a fresh backing array with
  the contents of \<open>v\<close>.\<close>

definition make_copy :: "addr \<Rightarrow> heap \<Rightarrow> addr \<times> heap" where
  "make_copy v h = (length (arrs h), h\<lparr>arrs := arrs h @ [arrs h ! v]\<rparr>)"

text \<open>\<open>header[k] = values\<close> on the map at address \<open>m\<close>.\<close>

definition hdr_store :: "addr \<Rightarrow> string \<Rightarrow> addr \<Rightarrow> heap \<Rightarrow> heap" where
  "hdr_store m k a h = h\<lparr>hdrs := (hdrs h)[m := AList.update k a (hdrs h ! m)]\<rparr>"

subsection \<open>\<open>DuplicateRequest\<close>\<close>

text \<open>The loop \<open>for k, v := range request.Header\<close>, over the entries of the map.\<close>

fun copy_headers :: "(string \<times> addr) list \<Rightarrow> addr \<Rightarrow> addr \<Rightarrow> heap \<Rightarrow> heap" where
  "copy_headers [] header1 header2 h = h"
| "copy_headers ((k, v) # rest) header1 header2 h =
     (let (values1, h) = make_copy v h;
          h = hdr_store header1 k values1 h;
          (values2, h) = make_copy v h;
          h = hdr_store header2 k values2 h
      in copy_headers rest header1 header2 h)"

definition DuplicateRequest :: "request \<Rightarrow> heap \<Rightarrow> (request \<times> request) \<times> heap" where
  "DuplicateRequest request h0 =
     (let (b1, h) = new_Buffer h0;
          (b2, h) = new_Buffer h;
          h = io_Copy b1 b2 (Body request) h;
          (header1, h) = new_Header h;
          (header2, h) = new_Header h;
          h = copy_headers (hdrs h ! Header request) header1 header2 h;
          request1 = \<lparr>Method = Method request, URL = URL request, Proto = ''HTTP/1.1'',
                      ProtoMajor = 1, ProtoMinor = 1, Header = header1,
                      Body = nopCloser b1, Host = Host request,
                      ContentLength = ContentLength request\<rparr>;
          request2 = \<lparr>Method = Method request, URL = URL request, Proto = ''HTTP/1.1'',
                      ProtoMajor = 1, ProtoMinor = 1, Header = header2,
                      Body = nopCloser b2, Host = Host request,
                      ContentLength = ContentLength request\<rparr>;
          h = Close (Body request) h
      in ((request1, request2), h))"

section \<open>Cookies\<close>

text \<open>\<open>http.Cookie\<close>. \<open>Expires\<close> is a \<open>time.Time\<close>, kept as a number whose zero is
  the zero time.\<close>

record cookie =
  Name :: string
  Value :: string
  Path :: string
  Domain :: string
  Expires :: int
  RawExpires :: string
  MaxAge :: int
  Secure :: bool
  HttpOnly :: bool
  Raw :: string
  Unparsed :: "string list"

subsection \<open>The \<open>Cookie\<close> header of a request (\<open>net/http\<close>)\<close>

text \<open>
  \<open>Request.Cookie\<close>, \<open>Request.AddCookie\<close> and the header methods are library code, not
  code of the proxy. They are modelled after current releases of Go's \<open>net/http\<close>:
  \<open>readCookies\<close> splits every \<open>Cookie\<close> line at semicolons, cuts each part at its first
  equals sign, keeps the parts whose name is a token and whose value has valid bytes only,
  and compares the name with the wanted name (the source's \<open>filter\<close>) exactly.
\<close>

definition is_space :: "char \<Rightarrow> bool" where
  "is_space c = (c = CHR '' '' \<or> c = CHR 0x09)"

definition TrimString :: "string \<Rightarrow> string" where
  "TrimString s = rev (dropWhile is_space (rev (dropWhile is_space s)))"

fun split_on :: "char \<Rightarrow> string \<Rightarrow> string list" where
  "split_on d [] = [[]]"
| "split_on d (c # cs) =
     (if c = d then [] # split_on d cs
      else (case split_on d cs of [] \<Rightarrow> [[c]] | p # ps \<Rightarrow> (c # p) # ps))"

definition isToken :: "char \<Rightarrow> bool" where
  "isToken c =
     (0x21 \<le> (of_char c :: nat) \<and> (of_char c :: nat) < 0x7f \<and>
      c \<notin> set [CHR 0x22, CHR ''('', CHR '')'', CHR '','', CHR ''/'', CHR '':'', CHR '';'',
                 CHR ''<'', CHR ''='', CHR ''>'', CHR ''?'', CHR ''@'', CHR ''['', CHR 0x5C,
                 CHR '']'', CHR ''{'', CHR ''}''])"

definition isCookieNameValid :: "string \<Rightarrow> bool" where
  "isCookieNameValid raw = (raw \<noteq> [] \<and> list_all isToken raw)"

definition validCookieValueByte :: "char \<Rightarrow> bool" where
  "validCookieValueByte b =
     (0x20 \<le> (of_char b :: nat) \<and> (of_char b :: nat) < 0x7f \<and>
      b \<noteq> CHR 0x22 \<and> b \<noteq> CHR '';'' \<and> b \<noteq> CHR 0x5C)"

definition parseCookieValue :: "string \<Rightarrow> bool \<Rightarrow> string option" where
  "parseCookieValue raw allowDoubleQuote =
     (let raw = (if allowDoubleQuote \<and> 1 < length raw \<and> hd raw = CHR 0x22 \<and>
                    last raw = CHR 0x22
                 then butlast (tl raw) else raw)
      in if list_all validCookieValueByte raw then Some raw else None)"

text \<open>A cookie read from a request carries a name and a value and nothing else.\<close>

definition name_value :: "string \<Rightarrow> string \<Rightarrow> cookie" where
  "name_value n v =
     \<lparr>Name = n, Value = v, Path = [], Domain = [], Expires = 0, RawExpires = [],
      MaxAge = 0, Secure = False, HttpOnly = False, Raw = [], Unparsed = []\<rparr>"

definition readCookie_part :: "string \<Rightarrow> string \<Rightarrow> cookie option" where
  "readCookie_part wanted part0 =
     (let part = TrimString part0 in
      if part = [] then None
      else
        let name = TrimString (takeWhile (\<lambda>c. c \<noteq> CHR ''='') part);
            val = drop 1 (dropWhile (\<lambda>c. c \<noteq> CHR ''='') part)
        in if \<not> isCookieNameValid name then None
           else if wanted \<noteq> [] \<and> wanted \<noteq> name then None
           else (case parseCookieValue val True of
                   None \<Rightarrow> None
                 | Some v \<Rightarrow> Some (name_value name v)))"

definition readCookies :: "string list \<Rightarrow> string \<Rightarrow> cookie list" where
  "readCookies lines wanted =
     concat (map (\<lambda>line. List.map_filter (readCookie_part wanted)
                           (split_on (CHR '';'') (TrimString line))) lines)"

text \<open>\<open>h[key]\<close> for a header map in the store.\<close>

definition header_lines :: "addr \<Rightarrow> string \<Rightarrow> heap \<Rightarrow> string list" where
  "header_lines m key h =
     (case map_of (hdrs h ! m) key of None \<Rightarrow> [] | Some a \<Rightarrow> arrs h ! a)"

text \<open>\<open>req.Cookie(name)\<close>: the first cookie that \<open>readCookies\<close> returns for the name;
  \<open>None\<close> stands for the nil cookie that comes with \<open>ErrNoCookie\<close>.\<close>

definition Request_Cookie :: "request \<Rightarrow> string \<Rightarrow> heap \<Rightarrow> cookie option" where
  "Request_Cookie r name h =
     (case readCookies (header_lines (Header r) ''Cookie'' h) name of
        [] \<Rightarrow> None
      | c # _ \<Rightarrow> Some c)"

definition Header_Get :: "addr \<Rightarrow> string \<Rightarrow> heap \<Rightarrow> string" where
  "Header_Get m key h = (case header_lines m key h of [] \<Rightarrow> [] | v # _ \<Rightarrow> v)"

text \<open>\<open>Header.Set\<close> stores a fresh one-element slice, \<open>Header.Del\<close> removes the key. Both
  are called with the canonical key \<open>Cookie\<close> only.\<close>

definition Header_Set :: "addr \<Rightarrow> string \<Rightarrow> string \<Rightarrow> heap \<Rightarrow> heap" where
  "Header_Set m key v h =
     hdr_store m key (length (arrs h)) (h\<lparr>arrs := arrs h @ [[v]]\<rparr>)"

definition Header_Del :: "addr \<Rightarrow> string \<Rightarrow> heap \<Rightarrow> heap" where
  "Header_Del m key h = h\<lparr>hdrs := (hdrs h)[m := AList.delete key (hdrs h ! m)]\<rparr>"

definition sanitizeCookieName :: "string \<Rightarrow> string" where
  "sanitizeCookieName n =
     map (\<lambda>c. if c = CHR 0x0A \<or> c = CHR 0x0D then CHR ''-'' else c) n"

definition sanitizeCookieValue :: "string \<Rightarrow> string" where
  "sanitizeCookieValue v =
     (let v = filter validCookieValueByte v in
      if list_ex (\<lambda>c. c = CHR '' '' \<or> c = CHR '','') v
      then [CHR 0x22] @ v @ [CHR 0x22] else v)"

definition AddCookie :: "request \<Rightarrow> cookie \<Rightarrow> heap \<Rightarrow> heap" where
  "AddCookie r c h =
     (let s = sanitizeCookieName (Name c) @ ''='' @ sanitizeCookieValue (Value c);
          cur = Header_Get (Header r) ''Cookie'' h
      in if cur \<noteq> [] then Header_Set (Header r) ''Cookie'' (cur @ ''; '' @ s) h
         else Header_Set (Header r) ''Cookie'' s h)"

subsection \<open>\<open>strings.EqualFold\<close>\<close>

text \<open>Equality under case folding, on the ASCII letters. Cookie names are tokens, hence
  ASCII.\<close>

definition lower :: "char \<Rightarrow> char" where
  "lower c =
     (if 65 \<le> (of_char c :: nat) \<and> (of_char c :: nat) \<le> 90
      then char_of ((of_char c :: nat) + 32) else c)"

definition EqualFold :: "string \<Rightarrow> string \<Rightarrow> bool" where
  "EqualFold s t = (map lower s = map lower t)"

section \<open>The session cache (\<open>go-cache\<close>)\<close>

text \<open>
  The cache is the library \<open>github.com/patrickmn/go-cache\<close>: a map from keys to items,
  an item being a value and the time it expires at (zero: never). \<open>Get\<close> misses an
  expired item; \<open>Set\<close> with the duration \<open>DefaultExpiration\<close> uses the cache's
  default. The clock is an argument.
\<close>

record item =
  Object :: string
  Expiration :: int

record cache =
  defaultExpiration :: int
  items :: "string \<Rightarrow> item option"

definition DefaultExpiration :: int where
  "DefaultExpiration = 0"

definition cache_Get :: "cache \<Rightarrow> int \<Rightarrow> string \<Rightarrow> string option" where
  "cache_Get c now k =
     (case items c k of
        None \<Rightarrow> None
      | Some it \<Rightarrow>
          if 0 < Expiration it \<and> Expiration it < now then None else Some (Object it))"

definition cache_Set :: "cache \<Rightarrow> int \<Rightarrow> string \<Rightarrow> string \<Rightarrow> int \<Rightarrow> cache" where
  "cache_Set c now k x d =
     (let d = (if d = DefaultExpiration then defaultExpiration c else d);
          e = (if 0 < d then now + d else 0)
      in c\<lparr>items := (items c)(k \<mapsto> \<lparr>Object = x, Expiration = e\<rparr>)\<rparr>)"

section \<open>The network, the caller and the log\<close>

text \<open>\<open>http.Response\<close>: header map and body reader are values here, since the handler
  only reads them.\<close>

record response =
  StatusCode :: int
  RespHeader :: "(string \<times> string list) list"
  RespBody :: stream

text \<open>A call into the network returns, fails with an error, or panics.\<close>

datatype 'a call = Ok 'a | Err string | Panic string

text \<open>What a backend does during one dispatch: the result of \<open>net.DialTimeout\<close>, of
  \<open>ClientConn.Write\<close> and of \<open>ClientConn.Read\<close>.\<close>

record backend =
  dial :: "unit call"
  send :: "unit call"
  recv :: "response call"

text \<open>
  Everything the handler takes from outside during one request cycle: the \<open>-debug\<close> flag,
  the behaviour of the two backends, the clock at the cache lookup and at the cache
  update, and the library's \<open>Response.Cookies\<close>, which parses \<open>Set-Cookie\<close> lines. The
  two timeouts bound the dialling only and have no counterpart here.
\<close>

record env =
  debug :: bool
  production :: backend
  alternate :: backend
  lookup_time :: int
  update_time :: int
  Cookies :: "response \<Rightarrow> cookie list"

text \<open>The \<open>http.ResponseWriter\<close>: the header map the handler fills, status and header as
  sent by \<open>WriteHeader\<close>, and the body bytes written.\<close>

record writer =
  handlerHeader :: "string \<Rightarrow> string list option"
  status :: "int option"
  sentHeader :: "string \<Rightarrow> string list option"
  written :: string

definition fresh_writer :: writer where
  "fresh_writer = \<lparr>handlerHeader = Map.empty, status = None, sentHeader = Map.empty,
                    written = []\<rparr>"

definition WriteHeader :: "int \<Rightarrow> writer \<Rightarrow> writer" where
  "WriteHeader code wr =
     (if status wr \<noteq> None then wr
      else wr\<lparr>status := Some code, sentHeader := handlerHeader wr\<rparr>)"

definition Write :: "string \<Rightarrow> writer \<Rightarrow> writer" where
  "Write bs wr =
     (let wr = (if status wr = None then WriteHeader 200 wr else wr)
      in wr\<lparr>written := written wr @ bs\<rparr>)"

text \<open>The loop \<open>for k, v := range resp.Header { w.Header()[k] = v }\<close>.\<close>

fun copy_response_header :: "(string \<times> string list) list \<Rightarrow> writer \<Rightarrow> writer" where
  "copy_response_header [] wr = wr"
| "copy_response_header ((k, v) # rest) wr =
     copy_response_header rest (wr\<lparr>handlerHeader := (handlerHeader wr)(k \<mapsto> v)\<rparr>)"

text \<open>\<open>ioutil.ReadAll\<close>, its error discarded as in the source.\<close>

definition ReadAll :: "stream \<Rightarrow> string" where
  "ReadAll s = (if closed s then [] else pending s)"

text \<open>The lines the source prints.\<close>

datatype log =
    FailedReadCookie string
  | LookupHit string string
  | LookupMiss string
  | FailedConnect string
  | FailedSend string string
  | FailedReceive string string
  | Recovered string

text \<open>What goes over a connection when a request is written to it.\<close>

record wire =
  wMethod :: string
  wURL :: url
  wHost :: string
  wHeader :: "(string \<times> string list) list"
  wBody :: string
  wContentLength :: int

definition snapshot :: "heap \<Rightarrow> request \<Rightarrow> wire" where
  "snapshot h r =
     \<lparr>wMethod = Method r, wURL = url_of h r, wHost = Host r,
      wHeader = map (\<lambda>(k, a). (k, arrs h ! a)) (hdrs h ! Header r),
      wBody = body_bytes h (Body r), wContentLength = ContentLength r\<rparr>"

text \<open>The effects of the handler that the outside can see, in order: connections dialled,
  requests written, responses awaited, the start of the detached unit, cache writes.\<close>

datatype event =
    Dial string
  | Send string wire
  | Recv string
  | Spawn
  | CacheSet string string

text \<open>The state a request cycle runs in. \<open>fault\<close> holds a panic that left the handler.\<close>

record world =
  store :: heap
  SessionCache :: cache
  stdout :: "log list"
  trace :: "event list"
  client :: writer
  fault :: "string option"

definition say :: "log \<Rightarrow> world \<Rightarrow> world" where
  "say l wd = wd\<lparr>stdout := stdout wd @ [l]\<rparr>"

definition note_event :: "event \<Rightarrow> world \<Rightarrow> world" where
  "note_event e wd = wd\<lparr>trace := trace wd @ [e]\<rparr>"

section \<open>The handler\<close>

text \<open>The fields \<open>Target\<close> and \<open>Alternative\<close> of the source's \<open>handler\<close>; the cache its
  third field points to is the \<open>SessionCache\<close> of the world.\<close>

record handler =
  Target :: string
  Alternative :: string

definition cookieName :: string where
  "cookieName = ''PHPSESSID''"

text \<open>\<open>FindCookie\<close>: the first cookie of the response whose name equals the wanted one
  under case folding.\<close>

definition FindCookie :: "env \<Rightarrow> response \<Rightarrow> string \<Rightarrow> cookie option" where
  "FindCookie ev resp wanted = find (\<lambda>c. EqualFold (Name c) wanted) (Cookies ev resp)"

text \<open>The cookie literal of lines 48 to 57: eight fields are copied or set, the others
  keep their zero values.\<close>

definition alternateCookie :: "cookie \<Rightarrow> string \<Rightarrow> cookie" where
  "alternateCookie c alternativeSessionId =
     \<lparr>Name = Name c, Value = alternativeSessionId, Path = Path c, Domain = Domain c,
      Expires = Expires c, RawExpires = [], MaxAge = MaxAge c, Secure = Secure c,
      HttpOnly = HttpOnly c, Raw = [], Unparsed = []\<rparr>"

text \<open>Lines 39 to 63: the lookup of the session cookie and the rewrite of the alternative
  request.\<close>

definition rewrite_cookie :: "env \<Rightarrow> request \<Rightarrow> request \<Rightarrow> world \<Rightarrow> world" where
  "rewrite_cookie ev req alternativeRequest wd =
     (case Request_Cookie req cookieName (store wd) of
        None \<Rightarrow> say (FailedReadCookie cookieName) wd
      | Some c \<Rightarrow>
          (case cache_Get (SessionCache wd) (lookup_time ev) (Value c) of
             Some alternativeSessionId \<Rightarrow>
               (let wd = say (LookupHit (Value c) alternativeSessionId) wd;
                    st = Header_Del (Header alternativeRequest) ''Cookie'' (store wd);
                    st = AddCookie alternativeRequest
                           (alternateCookie c alternativeSessionId) st
                in wd\<lparr>store := st\<rparr>)
           | None \<Rightarrow> say (LookupMiss (Value c)) wd))"

text \<open>
  Dial, write, read. The source has this sequence twice, at lines 66 to 82 for the
  production target and at lines 99 to 121 for the alternative one; the two differ in the
  target and in that the second prints its failures under \<open>-debug\<close> only, which is the
  argument \<open>verbose\<close>. The result is the response, the error the sequence stopped at, or
  the panic.
\<close>

definition dispatch ::
  "string \<Rightarrow> backend \<Rightarrow> bool \<Rightarrow> request \<Rightarrow> world \<Rightarrow> response call \<times> world" where
  "dispatch target be verbose r wd =
     (let wd = note_event (Dial target) wd in
      case dial be of
        Err e \<Rightarrow> (Err e, if verbose then say (FailedConnect target) wd else wd)
      | Panic p \<Rightarrow> (Panic p, wd)
      | Ok _ \<Rightarrow>
          (let wd = note_event (Send target (snapshot (store wd) r)) wd in
           case send be of
             Err e \<Rightarrow> (Err e, if verbose then say (FailedSend target e) wd else wd)
           | Panic p \<Rightarrow> (Panic p, wd)
           | Ok _ \<Rightarrow>
               (let wd = note_event (Recv target) wd in
                case recv be of
                  Err e \<Rightarrow> (Err e, if verbose then say (FailedReceive target e) wd else wd)
                | Panic p \<Rightarrow> (Panic p, wd)
                | Ok resp \<Rightarrow> (Ok resp, wd))))"

text \<open>The body of the function literal of lines 92 to 129, without its deferred
  function: the panic it ends with, if any, and the world it leaves.\<close>

definition shadow_body ::
  "handler \<Rightarrow> env \<Rightarrow> cookie option \<Rightarrow> request \<Rightarrow> world \<Rightarrow> string option \<times> world" where
  "shadow_body hnd ev productionCookie alternativeRequest wd =
     (case dispatch (Alternative hnd) (alternate ev) (debug ev) alternativeRequest wd of
        (Err e, wd) \<Rightarrow> (None, wd)
      | (Panic p, wd) \<Rightarrow> (Some p, wd)
      | (Ok alternativeResponse, wd) \<Rightarrow>
          (None,
           case productionCookie of
             None \<Rightarrow> wd
           | Some pc \<Rightarrow>
               (case FindCookie ev alternativeResponse cookieName of
                  None \<Rightarrow> wd
                | Some ac \<Rightarrow>
                    note_event (CacheSet (Value pc) (Value ac))
                      (wd\<lparr>SessionCache :=
                            cache_Set (SessionCache wd) (update_time ev) (Value pc)
                              (Value ac) DefaultExpiration\<rparr>))))"

text \<open>The detached unit: the body under its deferred \<open>recover\<close>, which stops a panic and
  prints it under \<open>-debug\<close>.\<close>

definition shadow_unit ::
  "handler \<Rightarrow> env \<Rightarrow> cookie option \<Rightarrow> request \<Rightarrow> world \<Rightarrow> world" where
  "shadow_unit hnd ev productionCookie alternativeRequest wd =
     (case shadow_body hnd ev productionCookie alternativeRequest wd of
        (None, wd) \<Rightarrow> wd
      | (Some r, wd) \<Rightarrow> (if debug ev then say (Recovered r) wd else wd))"

text \<open>Lines 84 to 90: the response of the production target goes to the caller.\<close>

definition relay :: "response \<Rightarrow> writer \<Rightarrow> writer" where
  "relay resp wr =
     (let wr = copy_response_header (RespHeader resp) wr;
          wr = WriteHeader (StatusCode resp) wr;
          body = ReadAll (RespBody resp)
      in Write body wr)"

text \<open>Lines 37 to 63: duplication, cookie lookup and rewrite. The first copy that
  \<open>DuplicateRequest\<close> returns is the alternative request, the second the production
  request.\<close>

definition prepare :: "env \<Rightarrow> request \<Rightarrow> world \<Rightarrow> (request \<times> request) \<times> world" where
  "prepare ev req wd =
     (let ((alternativeRequest, productionRequest), st) = DuplicateRequest req (store wd);
          wd = wd\<lparr>store := st\<rparr>;
          wd = rewrite_cookie ev req alternativeRequest wd
      in ((alternativeRequest, productionRequest), wd))"

text \<open>
  \<open>ServeHTTP\<close>, one request cycle: the handler and, where it starts one, the detached
  unit run to its end. The unit runs concurrently with whatever follows the handler; it
  touches the cache, the log and its own connection only, so the model runs it where the
  \<open>go\<close> statement stands. The deferred function of lines 130 to 134 is registered as the
  last statement of the handler, after which nothing can panic; it has no effect. A
  panic of the production dispatch leaves the handler.
\<close>

definition ServeHTTP :: "handler \<Rightarrow> env \<Rightarrow> request \<Rightarrow> world \<Rightarrow> world" where
  "ServeHTTP hnd ev req wd =
     (let ((alternativeRequest, productionRequest), wd) = prepare ev req wd
      in case dispatch (Target hnd) (production ev) True productionRequest wd of
           (Err e, wd) \<Rightarrow> wd
         | (Panic p, wd) \<Rightarrow> wd\<lparr>fault := Some p\<rparr>
         | (Ok resp, wd) \<Rightarrow>
             (let productionCookie = FindCookie ev resp cookieName;
                  wd = wd\<lparr>client := relay resp (client wd)\<rparr>;
                  wd = note_event Spawn wd
              in shadow_unit hnd ev productionCookie alternativeRequest wd))"

section \<open>Notions the properties are stated with\<close>

subsection \<open>Mutating a header after duplication\<close>

text \<open>
  What Go code can do to a header it holds: store a list of values under a key, delete a
  key, append a value to a key's list, overwrite an element of a key's list. Storing and
  appending allocate a backing array; overwriting writes into the array the map refers
  to, and does nothing here where Go panics on an index out of range.
\<close>

datatype mutation =
    SetKey string "string list"
  | DelKey string
  | AddValue string string
  | PokeValue string nat string

definition mutate :: "addr \<Rightarrow> mutation \<Rightarrow> heap \<Rightarrow> heap" where
  "mutate m mu h =
     (case mu of
        SetKey k vs \<Rightarrow> hdr_store m k (length (arrs h)) (h\<lparr>arrs := arrs h @ [vs]\<rparr>)
      | DelKey k \<Rightarrow> Header_Del m k h
      | AddValue k v \<Rightarrow>
          hdr_store m k (length (arrs h)) (h\<lparr>arrs := arrs h @ [header_lines m k h @ [v]]\<rparr>)
      | PokeValue k i v \<Rightarrow>
          (case map_of (hdrs h ! m) k of
             None \<Rightarrow> h
           | Some a \<Rightarrow>
               if i < length (arrs h ! a)
               then h\<lparr>arrs := (arrs h)[a := (arrs h ! a)[i := v]]\<rparr> else h))"

definition mutations :: "addr \<Rightarrow> mutation list \<Rightarrow> heap \<Rightarrow> heap" where
  "mutations m mus h = fold (mutate m) mus h"

text \<open>Two header maps are separate when they are different maps of the store whose
  value arrays are allocated and are not shared.\<close>

definition separate :: "heap \<Rightarrow> addr \<Rightarrow> addr \<Rightarrow> bool" where
  "separate h m1 m2 =
     (m1 \<noteq> m2 \<and> m1 < length (hdrs h) \<and> m2 < length (hdrs h) \<and>
      reach h m1 \<inter> reach h m2 = {} \<and>
      (\<forall>a \<in> reach h m1 \<union> reach h m2. a < length (arrs h)))"

text \<open>An assignment through a URL pointer, such as \<open>r.URL.Path = p\<close>.\<close>

definition url_update :: "addr \<Rightarrow> (url \<Rightarrow> url) \<Rightarrow> heap \<Rightarrow> heap" where
  "url_update a f h = h\<lparr>urls := (urls h)[a := f (urls h ! a)]\<rparr>"

subsection \<open>What a backend makes of a dispatch\<close>

text \<open>The result of dial, write and read against a backend, the events the sequence
  leaves, and the line it prints when it stops at an error.\<close>

definition outcome :: "backend \<Rightarrow> response call" where
  "outcome be =
     (case dial be of
        Err e \<Rightarrow> Err e
      | Panic p \<Rightarrow> Panic p
      | Ok _ \<Rightarrow> (case send be of Err e \<Rightarrow> Err e | Panic p \<Rightarrow> Panic p | Ok _ \<Rightarrow> recv be))"

definition attempt :: "string \<Rightarrow> backend \<Rightarrow> wire \<Rightarrow> event list" where
  "attempt target be wr =
     (case dial be of
        Ok _ \<Rightarrow>
          (case send be of
             Ok _ \<Rightarrow> [Dial target, Send target wr, Recv target]
           | _ \<Rightarrow> [Dial target, Send target wr])
      | _ \<Rightarrow> [Dial target])"

definition error_line :: "string \<Rightarrow> backend \<Rightarrow> log list" where
  "error_line target be =
     (case dial be of
        Err e \<Rightarrow> [FailedConnect target]
      | Panic p \<Rightarrow> []
      | Ok _ \<Rightarrow>
          (case send be of
             Err e \<Rightarrow> [FailedSend target e]
           | Panic p \<Rightarrow> []
           | Ok _ \<Rightarrow> (case recv be of Err e \<Rightarrow> [FailedReceive target e] | _ \<Rightarrow> [])))"

text \<open>The line of a failed dispatch of the detached unit: the error's line, or the line
  of the recovered panic.\<close>

definition failure_line :: "string \<Rightarrow> backend \<Rightarrow> log list" where
  "failure_line target be =
     (case outcome be of
        Ok _ \<Rightarrow> []
      | Err e \<Rightarrow> error_line target be
      | Panic p \<Rightarrow> [Recovered p])"

definition failed :: "'a call \<Rightarrow> bool" where
  "failed c = (case c of Ok _ \<Rightarrow> False | _ \<Rightarrow> True)"

definition is_error :: "'a call \<Rightarrow> bool" where
  "is_error c = (case c of Err _ \<Rightarrow> True | _ \<Rightarrow> False)"

subsection \<open>The session correlation of a cycle\<close>

text \<open>
  The pair the cache is to learn, in the words of the specification: the production
  response carries the session cookie, the alternative dispatch succeeds, and its
  response carries a session cookie of that name; the pair is production value and
  alternative value.
\<close>

definition correlation :: "env \<Rightarrow> (string \<times> string) option" where
  "correlation ev =
     (case outcome (production ev) of
        Ok presp \<Rightarrow>
          (case FindCookie ev presp cookieName of
             None \<Rightarrow> None
           | Some pc \<Rightarrow>
               (case outcome (alternate ev) of
                  Ok aresp \<Rightarrow>
                    (case FindCookie ev aresp cookieName of
                       None \<Rightarrow> None
                     | Some ac \<Rightarrow> Some (Value pc, Value ac))
                | _ \<Rightarrow> None))
      | _ \<Rightarrow> None)"

text \<open>What the detached unit learns, given the cookie captured from the production
  response.\<close>

definition learn :: "env \<Rightarrow> cookie option \<Rightarrow> (string \<times> string) option" where
  "learn ev productionCookie =
     (case productionCookie of
        None \<Rightarrow> None
      | Some pc \<Rightarrow>
          (case outcome (alternate ev) of
             Ok aresp \<Rightarrow>
               (case FindCookie ev aresp cookieName of
                  None \<Rightarrow> None
                | Some ac \<Rightarrow> Some (Value pc, Value ac))
           | _ \<Rightarrow> None))"

text \<open>The cache writes among the events of a trace.\<close>

fun cache_writes :: "event list \<Rightarrow> (string \<times> string) list" where
  "cache_writes [] = []"
| "cache_writes (CacheSet k v # es) = (k, v) # cache_writes es"
| "cache_writes (e # es) = cache_writes es"

subsection \<open>Auxiliary: the store between the body copy and the header loop\<close>

definition staged :: "request \<Rightarrow> heap \<Rightarrow> heap" where
  "staged req h =
     (let (b1, h) = new_Buffer h; (b2, h) = new_Buffer h;
          h = io_Copy b1 b2 (Body req) h;
          (header1, h) = new_Header h; (header2, h) = new_Header h
      in h)"

section \<open>Example values\<close>

text \<open>A request \<open>POST /cart\<close> in HTTP/1.0 with the cookie \<open>PHPSESSID=abc\<close>, a second
  header of two values and a body of three bytes.\<close>

definition ex_url :: url where
  "ex_url = \<lparr>Scheme = [], URLHost = [], URLPath = ''/cart'', RawQuery = [], Fragment = []\<rparr>"

definition ex_store :: heap where
  "ex_store =
     \<lparr>urls = [ex_url],
      hdrs = [[(''Cookie'', 0), (''Accept'', 1)]],
      arrs = [[''PHPSESSID=abc''], [''text/html'', ''*/*'']],
      bufs = [],
      streams = [\<lparr>pending = ''a=1'', broken = False, closed = False\<rparr>]\<rparr>"

definition ex_request :: request where
  "ex_request =
     \<lparr>Method = ''POST'', URL = 0, Proto = ''HTTP/1.0'', ProtoMajor = 1, ProtoMinor = 0,
      Header = 0, Body = netBody 0, Host = ''shop.example'', ContentLength = 3\<rparr>"

text \<open>
  A cache that maps the session \<open>abc\<close> to \<open>qqq\<close>; a production backend that answers 200
  and sets the session \<open>xyz\<close>; an alternative backend that answers 500 and sets the
  session \<open>rst\<close> under a lower-case cookie name; for \<open>Response.Cookies\<close> a parser
  that is good for \<open>Set-Cookie\<close> lines without attributes. Then variants: a body stream
  that ends in a read error after two bytes, a request whose cookie is named in lower
  case, a production target that refuses the connection, an alternative dispatch that
  panics under \<open>-debug\<close>.
\<close>

definition ex_cache :: cache where
  "ex_cache =
     \<lparr>defaultExpiration = 86400000000000,
      items = [''abc'' \<mapsto> \<lparr>Object = ''qqq'', Expiration = 86400000000500\<rparr>]\<rparr>"

definition ex_Cookies :: "response \<Rightarrow> cookie list" where
  "ex_Cookies resp =
     (case map_of (RespHeader resp) ''Set-Cookie'' of
        None \<Rightarrow> []
      | Some ls \<Rightarrow> readCookies ls [])"

definition ex_primary_response :: response where
  "ex_primary_response =
     \<lparr>StatusCode = 200,
      RespHeader = [(''Set-Cookie'', [''PHPSESSID=xyz'']), (''Content-Type'', [''text/html''])],
      RespBody = \<lparr>pending = ''<p>ok</p>'', broken = False, closed = False\<rparr>\<rparr>"

definition ex_shadow_response :: response where
  "ex_shadow_response =
     \<lparr>StatusCode = 500,
      RespHeader = [(''Set-Cookie'', [''phpsessid=rst''])],
      RespBody = \<lparr>pending = ''down'', broken = False, closed = False\<rparr>\<rparr>"

definition ex_production :: backend where
  "ex_production = \<lparr>dial = Ok (), send = Ok (), recv = Ok ex_primary_response\<rparr>"

definition ex_alternate :: backend where
  "ex_alternate = \<lparr>dial = Ok (), send = Ok (), recv = Ok ex_shadow_response\<rparr>"

definition ex_env :: env where
  "ex_env =
     \<lparr>debug = False, production = ex_production, alternate = ex_alternate,
      lookup_time = 1000, update_time = 2000, Cookies = ex_Cookies\<rparr>"

definition ex_handler :: handler where
  "ex_handler = \<lparr>Target = ''localhost:8080'', Alternative = ''localhost:8081''\<rparr>"

definition ex_world :: world where
  "ex_world =
     \<lparr>store = ex_store, SessionCache = ex_cache, stdout = [], trace = [],
      client = fresh_writer, fault = None\<rparr>"


definition ex_lower_world :: world where
  "ex_lower_world =
     ex_world\<lparr>store := ex_store\<lparr>arrs := [[''phpsessid=abc''], [''text/html'', ''*/*'']]\<rparr>\<rparr>"

definition ex_env_down :: env where
  "ex_env_down = ex_env\<lparr>production := ex_production\<lparr>dial := Err ''connection refused''\<rparr>\<rparr>"

definition ex_env_shadow_panics :: env where
  "ex_env_shadow_panics =
     ex_env\<lparr>debug := True, alternate := ex_alternate\<lparr>send := Panic ''nil pointer''\<rparr>\<rparr>"

section \<open>Separation of header maps\<close>

lemma separate_sym: "separate h m1 m2 = separate h m2 m1"
  by (auto simp: separate_def)

lemma reach_update_subset:
  "snd ` set (AList.update k a xs) \<subseteq> insert a (snd ` set xs)"
  by (induction xs) (auto split: if_splits)

lemma reach_delete_subset:
  "snd ` set (AList.delete k xs) \<subseteq> snd ` set xs"
  by (auto simp: AList.delete_eq)

lemma mutate_length_hdrs: "length (hdrs (mutate m mu h)) = length (hdrs h)"
  by (cases mu) (auto simp: mutate_def hdr_store_def Header_Del_def split: option.splits)

lemma mutate_length_arrs: "length (arrs h) \<le> length (arrs (mutate m mu h))"
  by (cases mu) (auto simp: mutate_def hdr_store_def Header_Del_def split: option.splits)

lemma mutate_hdrs_other: "m' \<noteq> m \<Longrightarrow> hdrs (mutate m mu h) ! m' = hdrs h ! m'"
  by (cases mu) (auto simp: mutate_def hdr_store_def Header_Del_def split: option.splits)

lemma mutate_reach_other: "m' \<noteq> m \<Longrightarrow> reach (mutate m mu h) m' = reach h m'"
  by (simp add: reach_def mutate_hdrs_other)

lemma mutate_reach_self:
  assumes "m < length (hdrs h)"
  shows "reach (mutate m mu h) m \<subseteq> reach h m \<union> {length (arrs h)}"
proof (cases mu)
  case (SetKey k vs)
  then show ?thesis using assms reach_update_subset[of k "length (arrs h)" "hdrs h ! m"]
    by (auto simp: mutate_def hdr_store_def reach_def)
next
  case (DelKey k)
  then show ?thesis using assms reach_delete_subset[of k "hdrs h ! m"]
    by (auto simp: mutate_def Header_Del_def reach_def)
next
  case (AddValue k v)
  then show ?thesis using assms reach_update_subset[of k "length (arrs h)" "hdrs h ! m"]
    by (auto simp: mutate_def hdr_store_def reach_def)
next
  case (PokeValue k i v)
  then show ?thesis
    by (auto simp: mutate_def reach_def split: option.splits)
qed

lemma map_of_in_reach: "map_of (hdrs h ! m) k = Some a \<Longrightarrow> a \<in> reach h m"
  unfolding reach_def by (metis image_eqI map_of_SomeD snd_conv)

lemma mutate_arrs_other:
  assumes "a \<notin> reach h m" "a < length (arrs h)"
  shows "arrs (mutate m mu h) ! a = arrs h ! a"
proof (cases mu)
  case (PokeValue k i v)
  show ?thesis
  proof (cases "map_of (hdrs h ! m) k")
    case None
    then show ?thesis using PokeValue by (simp add: mutate_def)
  next
    case (Some x)
    then have "x \<in> reach h m" by (rule map_of_in_reach)
    then have "x \<noteq> a" using assms by auto
    then show ?thesis using PokeValue Some by (simp add: mutate_def)
  qed
qed (use assms in \<open>auto simp: mutate_def hdr_store_def Header_Del_def nth_append\<close>)

lemma mutate_keeps_separate:
  assumes "separate h m1 m2"
  shows "separate (mutate m1 mu h) m1 m2"
proof -
  from assms have ne: "m1 \<noteq> m2" and l1: "m1 < length (hdrs h)" and l2: "m2 < length (hdrs h)"
    and dj: "reach h m1 \<inter> reach h m2 = {}"
    and bd: "\<forall>a \<in> reach h m1 \<union> reach h m2. a < length (arrs h)"
    by (auto simp: separate_def)
  have r2: "reach (mutate m1 mu h) m2 = reach h m2"
    using ne by (simp add: mutate_reach_other)
  have r1: "reach (mutate m1 mu h) m1 \<subseteq> reach h m1 \<union> {length (arrs h)}"
    using l1 by (rule mutate_reach_self)
  have fresh: "length (arrs h) \<notin> reach h m2" using bd by auto
  have dj': "reach (mutate m1 mu h) m1 \<inter> reach (mutate m1 mu h) m2 = {}"
    using r1 r2 dj fresh by auto
  have grow: "length (arrs h) \<le> length (arrs (mutate m1 mu h))"
    by (rule mutate_length_arrs)
  have new: "length (arrs h) \<in> reach (mutate m1 mu h) m1 \<Longrightarrow>
             length (arrs h) < length (arrs (mutate m1 mu h))"
  proof (cases mu)
    case (DelKey k)
    assume "length (arrs h) \<in> reach (mutate m1 mu h) m1"
    then have "length (arrs h) \<in> reach h m1"
      using DelKey l1 reach_delete_subset[of k "hdrs h ! m1"]
      by (auto simp: mutate_def Header_Del_def reach_def)
    then show ?thesis using bd by auto
  next
    case (PokeValue k i v)
    assume "length (arrs h) \<in> reach (mutate m1 mu h) m1"
    then have "length (arrs h) \<in> reach h m1"
      using PokeValue by (auto simp: mutate_def reach_def split: option.splits if_splits)
    then show ?thesis using bd by auto
  qed (auto simp: mutate_def hdr_store_def)
  have bd': "\<forall>a \<in> reach (mutate m1 mu h) m1 \<union> reach (mutate m1 mu h) m2.
               a < length (arrs (mutate m1 mu h))"
  proof
    fix a assume "a \<in> reach (mutate m1 mu h) m1 \<union> reach (mutate m1 mu h) m2"
    then consider "a \<in> reach h m2" | "a \<in> reach h m1"
      | "a = length (arrs h)" "a \<in> reach (mutate m1 mu h) m1"
      using r1 r2 by auto
    then show "a < length (arrs (mutate m1 mu h))"
    proof cases
      case 1
      then have "a < length (arrs h)" using bd by blast
      then show ?thesis using grow by linarith
    next
      case 2
      then have "a < length (arrs h)" using bd by blast
      then show ?thesis using grow by linarith
    next
      case 3 then show ?thesis using new by simp
    qed
  qed
  show ?thesis
    unfolding separate_def using ne l1 l2 dj' bd' by (simp add: mutate_length_hdrs)
qed

lemma mutate_keeps_other:
  assumes "separate h m1 m2"
  shows "header_of (mutate m1 mu h) m2 = header_of h m2"
proof
  fix k
  from assms have ne: "m2 \<noteq> m1"
    and dj: "reach h m1 \<inter> reach h m2 = {}"
    and bd: "\<forall>a \<in> reach h m1 \<union> reach h m2. a < length (arrs h)"
    by (auto simp: separate_def)
  show "header_of (mutate m1 mu h) m2 k = header_of h m2 k"
  proof (cases "map_of (hdrs h ! m2) k")
    case None
    then show ?thesis using ne by (simp add: header_of_def mutate_hdrs_other)
  next
    case (Some a)
    then have "a \<in> reach h m2" by (rule map_of_in_reach)
    then have "a \<notin> reach h m1" "a < length (arrs h)" using dj bd by auto
    then have "arrs (mutate m1 mu h) ! a = arrs h ! a" by (rule mutate_arrs_other)
    then show ?thesis using ne Some by (simp add: header_of_def mutate_hdrs_other)
  qed
qed

section \<open>The header loop and \<open>DuplicateRequest\<close>\<close>

lemma SetKey_arrs: "arrs (mutate m (SetKey k vs) h) = arrs h @ [vs]"
  by (simp add: mutate_def hdr_store_def)

lemma SetKey_self:
  assumes "m < length (hdrs h)" "\<forall>a \<in> reach h m. a < length (arrs h)"
  shows "header_of (mutate m (SetKey k vs) h) m = (header_of h m)(k \<mapsto> vs)"
proof
  fix k'
  show "header_of (mutate m (SetKey k vs) h) m k' = ((header_of h m)(k \<mapsto> vs)) k'"
  proof (cases "k' = k")
    case True
    then show ?thesis using assms(1)
      by (simp add: header_of_def mutate_def hdr_store_def update_conv')
  next
    case False
    show ?thesis
    proof (cases "map_of (hdrs h ! m) k'")
      case None
      then show ?thesis using assms(1) False
        by (simp add: header_of_def mutate_def hdr_store_def update_conv')
    next
      case (Some a)
      then have "a < length (arrs h)" using assms(2) map_of_in_reach by blast
      then show ?thesis using assms(1) False Some
        by (simp add: header_of_def mutate_def hdr_store_def update_conv' nth_append)
    qed
  qed
qed

lemma DelKey_self:
  assumes "m < length (hdrs h)"
  shows "header_of (mutate m (DelKey k) h) m = (header_of h m)(k := None)"
  using assms by (auto simp: header_of_def mutate_def Header_Del_def delete_conv')

lemma copy_headers_step:
  assumes "v < length (arrs h)"
  shows "copy_headers ((k, v) # rest) h1 h2 h =
         copy_headers rest h1 h2
           (mutate h2 (SetKey k (arrs h ! v)) (mutate h1 (SetKey k (arrs h ! v)) h))"
  using assms by (simp add: make_copy_def mutate_def hdr_store_def nth_append)

lemma separate_bound:
  "separate h m1 m2 \<Longrightarrow> a \<in> reach h m1 \<Longrightarrow> a < length (arrs h)"
  "separate h m1 m2 \<Longrightarrow> a \<in> reach h m2 \<Longrightarrow> a < length (arrs h)"
  by (auto simp: separate_def)

lemma copy_headers_spec:
  assumes "separate h h1 h2" "distinct (map fst es)" "\<forall>a \<in> snd ` set es. a < length (arrs h)"
  shows "separate (copy_headers es h1 h2 h) h1 h2 \<and>
         header_of (copy_headers es h1 h2 h) h1 =
           (\<lambda>k. case map_of es k of Some a \<Rightarrow> Some (arrs h ! a) | None \<Rightarrow> header_of h h1 k) \<and>
         header_of (copy_headers es h1 h2 h) h2 =
           (\<lambda>k. case map_of es k of Some a \<Rightarrow> Some (arrs h ! a) | None \<Rightarrow> header_of h h2 k) \<and>
         (\<exists>ys. arrs (copy_headers es h1 h2 h) = arrs h @ ys)"
  using assms
proof (induction es arbitrary: h)
  case Nil
  then show ?case by simp
next
  case (Cons e es)
  obtain k v where e: "e = (k, v)" by (cases e)
  let ?vs = "arrs h ! v"
  let ?ha = "mutate h1 (SetKey k ?vs) h"
  let ?hb = "mutate h2 (SetKey k ?vs) ?ha"
  have v: "v < length (arrs h)" using Cons.prems(3) e by simp
  have step: "copy_headers (e # es) h1 h2 h = copy_headers es h1 h2 ?hb"
    unfolding e using v by (rule copy_headers_step)
  have sa: "separate ?ha h1 h2" using Cons.prems(1) by (rule mutate_keeps_separate)
  then have "separate ?ha h2 h1" by (simp add: separate_sym)
  then have "separate ?hb h2 h1" by (rule mutate_keeps_separate)
  then have sb: "separate ?hb h1 h2" by (simp add: separate_sym)
  have arrs_b: "arrs ?hb = arrs h @ [?vs, ?vs]" by (simp add: SetKey_arrs)
  have l1: "h1 < length (hdrs h)" and l2: "h2 < length (hdrs h)"
    using Cons.prems(1) by (auto simp: separate_def)
  have b1: "\<forall>a \<in> reach h h1. a < length (arrs h)"
    using Cons.prems(1) separate_bound(1) by blast
  have b2a: "\<forall>a \<in> reach ?ha h2. a < length (arrs ?ha)"
    using sa separate_bound(2) by blast
  have h1a: "header_of ?ha h1 = (header_of h h1)(k \<mapsto> ?vs)"
    using l1 b1 by (rule SetKey_self)
  have h1b: "header_of ?hb h1 = (header_of h h1)(k \<mapsto> ?vs)"
    using mutate_keeps_other[OF \<open>separate ?ha h2 h1\<close>] h1a by simp
  have h2a: "header_of ?ha h2 = header_of h h2"
    using Cons.prems(1) by (rule mutate_keeps_other)
  have "h2 < length (hdrs ?ha)" using l2 by (simp add: mutate_length_hdrs)
  then have h2b: "header_of ?hb h2 = (header_of h h2)(k \<mapsto> ?vs)"
    using SetKey_self[OF _ b2a] h2a by simp
  have d: "distinct (map fst es)" and kn: "map_of es k = None"
    using Cons.prems(2) e by (auto simp: map_of_eq_None_iff)
  have bnd: "\<forall>a \<in> snd ` set es. a < length (arrs ?hb)"
    using Cons.prems(3) arrs_b by auto
  have old: "\<And>a. map_of es k' = Some a \<Longrightarrow> arrs ?hb ! a = arrs h ! a" for k'
  proof -
    fix a assume "map_of es k' = Some a"
    then have "a \<in> snd ` set es" by (metis image_eqI map_of_SomeD snd_conv)
    then have "a < length (arrs h)" using Cons.prems(3) by auto
    then show "arrs ?hb ! a = arrs h ! a" by (simp add: arrs_b nth_append)
  qed
  note IH = Cons.IH[OF sb d bnd]
  have c1: "separate (copy_headers (e # es) h1 h2 h) h1 h2" using IH step by simp
  have c2: "header_of (copy_headers (e # es) h1 h2 h) h1 =
        (\<lambda>k'. case map_of (e # es) k' of Some a \<Rightarrow> Some (arrs h ! a) | None \<Rightarrow> header_of h h1 k')"
  proof
    fix k'
    show "header_of (copy_headers (e # es) h1 h2 h) h1 k' =
        (case map_of (e # es) k' of Some a \<Rightarrow> Some (arrs h ! a) | None \<Rightarrow> header_of h h1 k')"
      using IH step h1b kn old[of k'] e by (auto split: option.splits)
  qed
  have c3: "header_of (copy_headers (e # es) h1 h2 h) h2 =
        (\<lambda>k'. case map_of (e # es) k' of Some a \<Rightarrow> Some (arrs h ! a) | None \<Rightarrow> header_of h h2 k')"
  proof
    fix k'
    show "header_of (copy_headers (e # es) h1 h2 h) h2 k' =
        (case map_of (e # es) k' of Some a \<Rightarrow> Some (arrs h ! a) | None \<Rightarrow> header_of h h2 k')"
      using IH step h2b kn old[of k'] e by (auto split: option.splits)
  qed
  have c4: "\<exists>ys. arrs (copy_headers (e # es) h1 h2 h) = arrs h @ ys"
    using IH step arrs_b by auto
  show ?case using c1 c2 c3 c4 by blast
qed

lemma copy_headers_frame:
  "urls (copy_headers es h1 h2 h) = urls h \<and> bufs (copy_headers es h1 h2 h) = bufs h \<and>
   streams (copy_headers es h1 h2 h) = streams h \<and>
   length (hdrs (copy_headers es h1 h2 h)) = length (hdrs h) \<and>
   (\<forall>m. m \<noteq> h1 \<longrightarrow> m \<noteq> h2 \<longrightarrow> hdrs (copy_headers es h1 h2 h) ! m = hdrs h ! m)"
  by (induction es h1 h2 h rule: copy_headers.induct)
     (auto simp: make_copy_def hdr_store_def)

lemma DuplicateRequest_unfold:
  "DuplicateRequest req h =
     ((\<lparr>Method = Method req, URL = URL req, Proto = ''HTTP/1.1'', ProtoMajor = 1,
        ProtoMinor = 1, Header = length (hdrs h), Body = nopCloser (length (bufs h)),
        Host = Host req, ContentLength = ContentLength req\<rparr>,
       \<lparr>Method = Method req, URL = URL req, Proto = ''HTTP/1.1'', ProtoMajor = 1,
        ProtoMinor = 1, Header = Suc (length (hdrs h)),
        Body = nopCloser (Suc (length (bufs h))),
        Host = Host req, ContentLength = ContentLength req\<rparr>),
      Close (Body req)
        (copy_headers (hdrs (staged req h) ! Header req) (length (hdrs h))
           (Suc (length (hdrs h))) (staged req h)))"
  by (simp add: DuplicateRequest_def staged_def new_Buffer_def new_Header_def io_Copy_def
      drain_def buf_write_def Let_def split: body.splits prod.splits)

lemma staged_facts:
  assumes "wf_request h req"
  shows "urls (staged req h) = urls h"
    and "arrs (staged req h) = arrs h"
    and "hdrs (staged req h) = hdrs h @ [[], []]"
    and "bufs (staged req h) ! length (bufs h) = body_bytes h (Body req)"
    and "bufs (staged req h) ! Suc (length (bufs h)) = body_bytes h (Body req)"
    and "length (bufs (staged req h)) = Suc (Suc (length (bufs h)))"
  using assms
  by (auto simp: staged_def new_Buffer_def new_Header_def io_Copy_def wf_request_def
      drain_def buf_write_def body_bytes_def Let_def nth_append split: body.splits prod.splits)

lemma Close_frame:
  "hdrs (Close b h) = hdrs h" "arrs (Close b h) = arrs h" "bufs (Close b h) = bufs h"
  "urls (Close b h) = urls h"
  by (auto simp: Close_def split: body.splits)

lemma Close_header_of: "header_of (Close b h) m = header_of h m"
  by (simp add: header_of_def Close_frame)

lemma Close_separate: "separate (Close b h) m1 m2 = separate h m1 m2"
  by (simp add: separate_def reach_def Close_frame)

lemma DuplicateRequest_fields:
  assumes "DuplicateRequest req h = ((r1, r2), h')"
  shows "Method r1 = Method req \<and> URL r1 = URL req \<and> Host r1 = Host req \<and>
         ContentLength r1 = ContentLength req \<and>
         Proto r1 = ''HTTP/1.1'' \<and> ProtoMajor r1 = 1 \<and> ProtoMinor r1 = 1 \<and>
         Header r1 = length (hdrs h) \<and> Body r1 = nopCloser (length (bufs h))"
    and "Method r2 = Method req \<and> URL r2 = URL req \<and> Host r2 = Host req \<and>
         ContentLength r2 = ContentLength req \<and>
         Proto r2 = ''HTTP/1.1'' \<and> ProtoMajor r2 = 1 \<and> ProtoMinor r2 = 1 \<and>
         Header r2 = Suc (length (hdrs h)) \<and> Body r2 = nopCloser (Suc (length (bufs h)))"
  using assms unfolding DuplicateRequest_unfold by auto

lemma DuplicateRequest_store:
  assumes wf: "wf_request h req" and dup: "DuplicateRequest req h = ((r1, r2), h')"
  shows "separate h' (Header r1) (Header r2)"
    and "header_of h' (Header r1) = header_of h (Header req)"
    and "header_of h' (Header r2) = header_of h (Header req)"
    and "body_bytes h' (Body r1) = body_bytes h (Body req)"
    and "body_bytes h' (Body r2) = body_bytes h (Body req)"
    and "urls h' = urls h"
    and "hdrs h' ! Header req = hdrs h ! Header req"
    and "\<exists>ys. arrs h' = arrs h @ ys"
proof -
  let ?S = "staged req h"
  let ?H1 = "length (hdrs h)"
  let ?H2 = "Suc (length (hdrs h))"
  let ?es = "hdrs h ! Header req"
  let ?C = "copy_headers ?es ?H1 ?H2 ?S"
  note sf = staged_facts[OF wf]
  have m0: "Header req < length (hdrs h)" using wf by (simp add: wf_request_def)
  have es: "hdrs ?S ! Header req = ?es" using m0 by (simp add: sf nth_append)
  have h': "h' = Close (Body req) ?C" and r1: "Header r1 = ?H1" "Body r1 = nopCloser (length (bufs h))"
    and r2: "Header r2 = ?H2" "Body r2 = nopCloser (Suc (length (bufs h)))"
    using dup unfolding DuplicateRequest_unfold es by auto
  have sepS: "separate ?S ?H1 ?H2"
    by (simp add: separate_def reach_def sf nth_append)
  have dist: "distinct (map fst ?es)" using wf by (simp add: wf_request_def)
  have bnd: "\<forall>a \<in> snd ` set ?es. a < length (arrs ?S)"
    using wf by (auto simp: wf_request_def sf list_all_iff)
  note spec = copy_headers_spec[OF sepS dist bnd]
  note fr = copy_headers_frame[of ?es ?H1 ?H2 ?S]
  have emp: "\<And>k. header_of ?S ?H1 k = None" "\<And>k. header_of ?S ?H2 k = None"
    by (auto simp: header_of_def sf nth_append)
  have same: "(\<lambda>k. case map_of ?es k of Some a \<Rightarrow> Some (arrs ?S ! a)
                                        | None \<Rightarrow> header_of ?S ?H1 k) =
              header_of h (Header req)"
              "(\<lambda>k. case map_of ?es k of Some a \<Rightarrow> Some (arrs ?S ! a)
                                        | None \<Rightarrow> header_of ?S ?H2 k) =
              header_of h (Header req)"
  proof -
    show "(\<lambda>k. case map_of ?es k of Some a \<Rightarrow> Some (arrs ?S ! a)
                                        | None \<Rightarrow> header_of ?S ?H1 k) =
              header_of h (Header req)"
      unfolding emp by (rule ext) (simp add: header_of_def sf split: option.splits)
    show "(\<lambda>k. case map_of ?es k of Some a \<Rightarrow> Some (arrs ?S ! a)
                                        | None \<Rightarrow> header_of ?S ?H2 k) =
              header_of h (Header req)"
      unfolding emp by (rule ext) (simp add: header_of_def sf split: option.splits)
  qed
  show "separate h' (Header r1) (Header r2)"
    using spec by (simp add: h' r1 r2 Close_separate)
  show "header_of h' (Header r1) = header_of h (Header req)"
    using spec same by (simp add: h' r1 Close_header_of)
  show "header_of h' (Header r2) = header_of h (Header req)"
    using spec same by (simp add: h' r2 Close_header_of)
  show "body_bytes h' (Body r1) = body_bytes h (Body req)"
    using fr by (simp add: h' r1 body_bytes_def Close_frame sf)
  show "body_bytes h' (Body r2) = body_bytes h (Body req)"
    using fr by (simp add: h' r2 body_bytes_def Close_frame sf)
  show "urls h' = urls h" using fr by (simp add: h' Close_frame sf)
  show "hdrs h' ! Header req = hdrs h ! Header req"
    using fr m0 es by (simp add: h' Close_frame)
  show "\<exists>ys. arrs h' = arrs h @ ys" using spec by (simp add: h' Close_frame sf)
qed

lemma DuplicateRequest_bufs:
  assumes wf: "wf_request h req" and dup: "DuplicateRequest req h = ((r1, r2), h')"
  shows "length (bufs h') = Suc (Suc (length (bufs h)))"
proof -
  have "bufs h' = bufs (staged req h)"
    using dup copy_headers_frame unfolding DuplicateRequest_unfold by (auto simp: Close_frame)
  then show ?thesis by (simp add: staged_facts[OF wf])
qed

lemma mutations_keep:
  "separate h m1 m2 \<Longrightarrow>
   separate (mutations m1 mus h) m1 m2 \<and>
   header_of (mutations m1 mus h) m2 = header_of h m2"
proof (induction mus arbitrary: h)
  case Nil
  then show ?case by (simp add: mutations_def)
next
  case (Cons mu mus)
  have s: "separate (mutate m1 mu h) m1 m2" using Cons.prems by (rule mutate_keeps_separate)
  have k: "header_of (mutate m1 mu h) m2 = header_of h m2"
    using Cons.prems by (rule mutate_keeps_other)
  have "mutations m1 (mu # mus) h = mutations m1 mus (mutate m1 mu h)"
    by (simp add: mutations_def)
  then show ?case using Cons.IH[OF s] k by simp
qed

lemma drain_other_buffer:
  "a \<noteq> b \<Longrightarrow> body_bytes (snd (drain (nopCloser a) h)) (nopCloser b) = body_bytes h (nopCloser b)"
  by (simp add: drain_def body_bytes_def)


section \<open>Properties of the duplicator\<close>

text \<open>
  Claim C3. For a well-formed inbound request \<open>R\<close>, \<open>DuplicateRequest\<close> returns two
  copies with the method, URL, host, content length and body bytes of \<open>R\<close>, both
  declaring HTTP/1.1 whatever \<open>R\<close> declares. Their header maps denote the header of
  \<open>R\<close> but are different maps over disjoint value arrays, and their bodies are different
  buffers: no sequence of mutations of one copy's header (storing, deleting, appending,
  overwriting an element of a value list) changes the other copy's header, and reading
  one body to its end leaves the other body as it is.
\<close>

theorem duplicate_fidelity:
  assumes "wf_request h R" and "DuplicateRequest R h = ((copyA, copyB), h')"
  shows "Method copyA = Method R \<and> Method copyB = Method R \<and>
         URL copyA = URL R \<and> URL copyB = URL R \<and>
         url_of h' copyA = url_of h R \<and> url_of h' copyB = url_of h R \<and>
         Host copyA = Host R \<and> Host copyB = Host R \<and>
         ContentLength copyA = ContentLength R \<and> ContentLength copyB = ContentLength R \<and>
         body_bytes h' (Body copyA) = body_bytes h (Body R) \<and>
         body_bytes h' (Body copyB) = body_bytes h (Body R) \<and>
         Proto copyA = ''HTTP/1.1'' \<and> ProtoMajor copyA = 1 \<and> ProtoMinor copyA = 1 \<and>
         Proto copyB = ''HTTP/1.1'' \<and> ProtoMajor copyB = 1 \<and> ProtoMinor copyB = 1 \<and>
         header_of h' (Header copyA) = header_of h (Header R) \<and>
         header_of h' (Header copyB) = header_of h (Header R) \<and>
         Header copyA \<noteq> Header copyB \<and> Body copyA \<noteq> Body copyB \<and>
         reach h' (Header copyA) \<inter> reach h' (Header copyB) = {} \<and>
         (\<forall>mus. header_of (mutations (Header copyA) mus h') (Header copyB) =
                header_of h' (Header copyB)) \<and>
         (\<forall>mus. header_of (mutations (Header copyB) mus h') (Header copyA) =
                header_of h' (Header copyA)) \<and>
         body_bytes (snd (drain (Body copyA) h')) (Body copyB) = body_bytes h' (Body copyB) \<and>
         body_bytes (snd (drain (Body copyB) h')) (Body copyA) = body_bytes h' (Body copyA)"
proof -
  note f = DuplicateRequest_fields[OF assms(2)]
  note s = DuplicateRequest_store[OF assms]
  have sep: "separate h' (Header copyA) (Header copyB)" by (rule s(1))
  then have sep': "separate h' (Header copyB) (Header copyA)" by (simp add: separate_sym)
  have u: "url_of h' copyA = url_of h R" "url_of h' copyB = url_of h R"
    using f s(6) by (simp_all add: url_of_def)
  have m1: "\<forall>mus. header_of (mutations (Header copyA) mus h') (Header copyB) =
                header_of h' (Header copyB)"
    using mutations_keep[OF sep] by simp
  have m2: "\<forall>mus. header_of (mutations (Header copyB) mus h') (Header copyA) =
                header_of h' (Header copyA)"
    using mutations_keep[OF sep'] by simp
  have d: "Header copyA \<noteq> Header copyB" "Body copyA \<noteq> Body copyB"
    "reach h' (Header copyA) \<inter> reach h' (Header copyB) = {}"
    using sep f by (auto simp: separate_def)
  have b: "body_bytes (snd (drain (Body copyA) h')) (Body copyB) = body_bytes h' (Body copyB)"
    "body_bytes (snd (drain (Body copyB) h')) (Body copyA) = body_bytes h' (Body copyA)"
    using f by (simp_all add: drain_other_buffer)
  show ?thesis
    using f s(2,3,4,5) u m1 m2 d b by simp
qed

theorem duplicate_fidelity_witness:
  "wf_request ex_store ex_request \<and>
   (case DuplicateRequest ex_request ex_store of
      ((copyA, copyB), h') \<Rightarrow>
        Method copyA = ''POST'' \<and> Host copyB = ''shop.example'' \<and>
        Proto copyA = ''HTTP/1.1'' \<and> Proto copyB = ''HTTP/1.1'' \<and>
        body_bytes h' (Body copyA) = ''a=1'' \<and> body_bytes h' (Body copyB) = ''a=1'' \<and>
        header_of h' (Header copyA) ''Cookie'' = Some [''PHPSESSID=abc''] \<and>
        header_of h' (Header copyB) ''Accept'' = Some [''text/html'', ''*/*''] \<and>
        Header copyA \<noteq> Header copyB \<and>
        (\<forall>mus. header_of (mutations (Header copyA) mus h') (Header copyB) =
               header_of h' (Header copyB)) \<and>
        (\<forall>mus. header_of (mutations (Header copyB) mus h') (Header copyA) =
               header_of h' (Header copyA)))"
proof -
  obtain copyA copyB h' where d: "DuplicateRequest ex_request ex_store = ((copyA, copyB), h')"
    by (metis prod.exhaust)
  have w: "wf_request ex_store ex_request"
    by (simp add: wf_request_def ex_store_def ex_request_def)
  note t = duplicate_fidelity[OF w d]
  have e: "header_of ex_store (Header ex_request) ''Cookie'' = Some [''PHPSESSID=abc'']"
    "header_of ex_store (Header ex_request) ''Accept'' = Some [''text/html'', ''*/*'']"
    "body_bytes ex_store (Body ex_request) = ''a=1''"
    "Method ex_request = ''POST''" "Host ex_request = ''shop.example''"
    by (simp_all add: header_of_def body_bytes_def ex_store_def ex_request_def)
  show ?thesis using t w e unfolding d by simp
qed

text \<open>
  Claim C10. The two copies and the original request hold the same URL pointer, and
  \<open>DuplicateRequest\<close> allocates no URL: an assignment through the URL pointer of one copy
  is seen through the other copy and through the original request.
\<close>

theorem url_shared:
  assumes "wf_request h R" and "DuplicateRequest R h = ((copyA, copyB), h')"
  shows "URL copyA = URL R \<and> URL copyB = URL R \<and> urls h' = urls h \<and>
         (\<forall>f. url_of (url_update (URL copyA) f h') copyB = f (url_of h' copyB) \<and>
              url_of (url_update (URL copyA) f h') R = f (url_of h' R) \<and>
              url_of (url_update (URL copyB) f h') copyA = f (url_of h' copyA) \<and>
              url_of (url_update (URL copyB) f h') R = f (url_of h' R))"
proof -
  note f = DuplicateRequest_fields[OF assms(2)]
  have u: "urls h' = urls h" by (rule DuplicateRequest_store(6)[OF assms])
  have l: "URL R < length (urls h')" using assms(1) u by (simp add: wf_request_def)
  show ?thesis using f u l by (simp add: url_of_def url_update_def)
qed

theorem url_shared_witness:
  "wf_request ex_store ex_request \<and>
   (case DuplicateRequest ex_request ex_store of
      ((copyA, copyB), h') \<Rightarrow>
        URL copyA = 0 \<and> URL copyB = 0 \<and> URL ex_request = 0 \<and>
        URLPath (url_of (url_update (URL copyA) (\<lambda>u. u\<lparr>URLPath := ''/admin''\<rparr>) h') copyB)
          = ''/admin'' \<and>
        URLPath (url_of (url_update (URL copyB) (\<lambda>u. u\<lparr>URLPath := ''/admin''\<rparr>) h') ex_request)
          = ''/admin'')"
proof -
  obtain copyA copyB h' where d: "DuplicateRequest ex_request ex_store = ((copyA, copyB), h')"
    by (metis prod.exhaust)
  have w: "wf_request ex_store ex_request"
    by (simp add: wf_request_def ex_store_def ex_request_def)
  note t = url_shared[OF w d]
  have e: "URL ex_request = 0" by (simp add: ex_request_def)
  have a: "URL copyA = 0" "URL copyB = 0" using t e by simp_all
  have q: "url_of (url_update (URL copyA) f h') copyB = f (url_of h' copyB)"
    "url_of (url_update (URL copyB) f h') ex_request = f (url_of h' ex_request)" for f
    using t by blast+
  show ?thesis using w e a q[of "\<lambda>u. u\<lparr>URLPath := ''/admin''\<rparr>"] unfolding d by simp
qed

section \<open>Cookie lookup and rewrite\<close>

lemma map_filter_mem: "y \<in> set (List.map_filter f xs) \<Longrightarrow> \<exists>x. f x = Some y"
  by (induction xs) (auto split: option.splits)

lemma readCookies_shape:
  assumes "c \<in> set (readCookies lines wanted)"
  shows "(\<exists>n v. c = name_value n v) \<and> (wanted \<noteq> [] \<longrightarrow> Name c = wanted)"
proof -
  from assms obtain part where "readCookie_part wanted part = Some c"
    by (auto simp: readCookies_def dest: map_filter_mem)
  then show ?thesis
    by (auto simp: readCookie_part_def Let_def name_value_def split: if_splits option.splits)
qed

lemma Request_Cookie_shape:
  assumes "Request_Cookie r wanted h = Some c"
  shows "(\<exists>n v. c = name_value n v) \<and> (wanted \<noteq> [] \<longrightarrow> Name c = wanted)"
proof -
  from assms have "c \<in> set (readCookies (header_lines (Header r) ''Cookie'' h) wanted)"
    by (auto simp: Request_Cookie_def split: list.splits)
  then show ?thesis by (rule readCookies_shape)
qed

lemma sanitize_cookieName: "sanitizeCookieName cookieName = ''PHPSESSID''"
  by (simp add: sanitizeCookieName_def cookieName_def)

lemma header_lines_header_of:
  "header_lines m k h = (case header_of h m k of None \<Rightarrow> [] | Some vs \<Rightarrow> vs)"
  by (simp add: header_lines_def header_of_def split: option.splits)

lemma DuplicateRequest_original_header:
  assumes wf: "wf_request h req" and dup: "DuplicateRequest req h = ((r1, r2), h')"
  shows "header_of h' (Header req) = header_of h (Header req)"
proof
  fix k
  note s = DuplicateRequest_store[OF wf dup]
  from s(8) obtain ys where ys: "arrs h' = arrs h @ ys" by blast
  show "header_of h' (Header req) k = header_of h (Header req) k"
  proof (cases "map_of (hdrs h ! Header req) k")
    case None
    then show ?thesis by (simp add: header_of_def s(7))
  next
    case (Some a)
    then have "a \<in> snd ` set (hdrs h ! Header req)"
      by (metis image_eqI map_of_SomeD snd_conv)
    then have "a < length (arrs h)" using wf by (auto simp: wf_request_def list_all_iff)
    then show ?thesis using Some by (simp add: header_of_def s(7) ys nth_append)
  qed
qed

lemma Header_Del_mutate: "Header_Del m k h = mutate m (DelKey k) h"
  by (simp add: mutate_def)

lemma Header_Set_mutate: "Header_Set m k v h = mutate m (SetKey k [v]) h"
  by (simp add: mutate_def Header_Set_def)

lemma install_cookie:
  assumes sep: "separate h m1 m2" and hdr: "Header r = m1"
  shows "header_of (AddCookie r c (Header_Del m1 ''Cookie'' h)) m1 =
           (header_of h m1)(''Cookie'' \<mapsto>
              [sanitizeCookieName (Name c) @ ''='' @ sanitizeCookieValue (Value c)])"
    and "header_of (AddCookie r c (Header_Del m1 ''Cookie'' h)) m2 = header_of h m2"
proof -
  let ?d = "mutate m1 (DelKey ''Cookie'') h"
  let ?s = "sanitizeCookieName (Name c) @ ''='' @ sanitizeCookieValue (Value c)"
  have l1: "m1 < length (hdrs h)" using sep by (simp add: separate_def)
  have sd: "separate ?d m1 m2" using sep by (rule mutate_keeps_separate)
  have hd: "header_of ?d m1 = (header_of h m1)(''Cookie'' := None)"
    using l1 by (rule DelKey_self)
  then have "Header_Get m1 ''Cookie'' ?d = []"
    by (simp add: Header_Get_def header_lines_header_of)
  then have add: "AddCookie r c (Header_Del m1 ''Cookie'' h) = mutate m1 (SetKey ''Cookie'' [?s]) ?d"
    by (simp add: AddCookie_def hdr Header_Del_mutate Header_Set_mutate Let_def)
  have l1d: "m1 < length (hdrs ?d)" using l1 by (simp add: mutate_length_hdrs)
  have bd: "\<forall>a \<in> reach ?d m1. a < length (arrs ?d)" using sd separate_bound(1) by blast
  show "header_of (AddCookie r c (Header_Del m1 ''Cookie'' h)) m1 =
           (header_of h m1)(''Cookie'' \<mapsto> [?s])"
    unfolding add using SetKey_self[OF l1d bd] hd by simp
  show "header_of (AddCookie r c (Header_Del m1 ''Cookie'' h)) m2 = header_of h m2"
    unfolding add using mutate_keeps_other[OF sd] mutate_keeps_other[OF sep] by simp
qed

lemma Request_Cookie_cong:
  "header_of h' (Header r) = header_of h (Header r) \<Longrightarrow>
   Request_Cookie r n h' = Request_Cookie r n h"
  by (simp add: Request_Cookie_def header_lines_header_of)

lemma say_fields:
  "store (say l wd) = store wd" "SessionCache (say l wd) = SessionCache wd"
  "trace (say l wd) = trace wd" "client (say l wd) = client wd" "fault (say l wd) = fault wd"
  "stdout (say l wd) = stdout wd @ [l]"
  by (simp_all add: say_def)

lemma prepare_unfold:
  assumes "DuplicateRequest req (store wd) = ((alt, prim), st)"
  shows "prepare ev req wd = ((alt, prim), rewrite_cookie ev req alt (wd\<lparr>store := st\<rparr>))"
  using assms by (simp add: prepare_def)

lemma prepare_headers:
  assumes "wf_request (store wd) req" and "prepare ev req wd = ((alt, prim), wd')"
  shows "header_of (store wd') (Header prim) = header_of (store wd) (Header req) \<and>
         header_of (store wd') (Header alt) =
           (case Request_Cookie req cookieName (store wd) of
              None \<Rightarrow> header_of (store wd) (Header req)
            | Some c \<Rightarrow>
                (case cache_Get (SessionCache wd) (lookup_time ev) (Value c) of
                   None \<Rightarrow> header_of (store wd) (Header req)
                 | Some sid \<Rightarrow>
                     (header_of (store wd) (Header req))
                       (''Cookie'' \<mapsto> [''PHPSESSID='' @ sanitizeCookieValue sid])))"
proof -
  obtain a p st where dup: "DuplicateRequest req (store wd) = ((a, p), st)"
    by (metis prod.exhaust)
  from assms(2) have ap: "a = alt" "p = prim"
    and wd': "wd' = rewrite_cookie ev req alt (wd\<lparr>store := st\<rparr>)"
    unfolding prepare_unfold[OF dup] by auto
  note dup = dup[unfolded ap]
  note s = DuplicateRequest_store[OF assms(1) dup]
  have orig: "header_of st (Header req) = header_of (store wd) (Header req)"
    using assms(1) dup by (rule DuplicateRequest_original_header)
  have rc: "Request_Cookie req cookieName st = Request_Cookie req cookieName (store wd)"
    using orig by (rule Request_Cookie_cong)
  show ?thesis
  proof (cases "Request_Cookie req cookieName (store wd)")
    case None
    then show ?thesis using s(2,3) rc by (simp add: wd' rewrite_cookie_def say_fields)
  next
    case (Some c)
    show ?thesis
    proof (cases "cache_Get (SessionCache wd) (lookup_time ev) (Value c)")
      case None
      then show ?thesis using Some s(2,3) rc by (simp add: wd' rewrite_cookie_def say_fields)
    next
      case (Some sid)
      have n: "Name c = cookieName"
        using Request_Cookie_shape[OF \<open>Request_Cookie req cookieName (store wd) = Some c\<close>]
        by (simp add: cookieName_def)
      have st': "store wd' = AddCookie alt (alternateCookie c sid)
                               (Header_Del (Header alt) ''Cookie'' st)"
        using Some \<open>Request_Cookie req cookieName (store wd) = Some c\<close> rc
        by (simp add: wd' rewrite_cookie_def say_fields Let_def)
      note i = install_cookie[where r=alt and c="alternateCookie c sid", OF s(1) refl]
      show ?thesis
        using Some \<open>Request_Cookie req cookieName (store wd) = Some c\<close> i s(2,3) n
        by (simp add: st' alternateCookie_def sanitize_cookieName)
    qed
  qed
qed


lemma ex_cookie: "Request_Cookie ex_request cookieName ex_store = Some (name_value ''PHPSESSID'' ''abc'')"
  by code_simp

lemma ex_hit: "cache_Get (SessionCache ex_world) (lookup_time ex_env) ''abc'' = Some ''qqq''"
  by (simp add: cache_Get_def ex_world_def ex_cache_def ex_env_def)

lemma ex_sanitize: "sanitizeCookieValue ''qqq'' = ''qqq''"
  by code_simp


text \<open>
  Claim C1. After duplication and cookie lookup (lines 37 to 63) the header of the
  production copy denotes the header of the inbound request, whatever the lookup found.
  The header of the alternative copy denotes it too when the request has no cookie named
  \<open>PHPSESSID\<close> or the cache has no live entry for the cookie's value. On a hit it is
  that header with the key \<open>Cookie\<close> replaced by a single line, \<open>PHPSESSID=\<close> followed by
  the cached value as \<open>AddCookie\<close> sanitises it; no other key changes.
\<close>

theorem cookie_rewrite_shadow_only:
  assumes "wf_request (store wd) req" and "prepare ev req wd = ((alt, prim), wd')"
  shows "header_of (store wd') (Header prim) = header_of (store wd) (Header req) \<and>
         header_of (store wd') (Header alt) =
           (case Request_Cookie req cookieName (store wd) of
              None \<Rightarrow> header_of (store wd) (Header req)
            | Some c \<Rightarrow>
                (case cache_Get (SessionCache wd) (lookup_time ev) (Value c) of
                   None \<Rightarrow> header_of (store wd) (Header req)
                 | Some sid \<Rightarrow>
                     (header_of (store wd) (Header req))
                       (''Cookie'' \<mapsto> [''PHPSESSID='' @ sanitizeCookieValue sid])))"
  using assms by (rule prepare_headers)

theorem cookie_rewrite_shadow_only_witness:
  "wf_request (store ex_world) ex_request \<and>
   (case prepare ex_env ex_request ex_world of
      ((alt, prim), wd') \<Rightarrow>
        header_of (store wd') (Header alt) ''Cookie'' = Some [''PHPSESSID=qqq''] \<and>
        header_of (store wd') (Header prim) ''Cookie'' = Some [''PHPSESSID=abc''] \<and>
        header_of (store wd') (Header alt) ''Accept'' = Some [''text/html'', ''*/*''] \<and>
        header_of (store wd') (Header prim) = header_of ex_store (Header ex_request))"
proof -
  obtain alt prim wd' where p: "prepare ex_env ex_request ex_world = ((alt, prim), wd')"
    by (metis prod.exhaust)
  have w: "wf_request (store ex_world) ex_request"
    by (simp add: wf_request_def ex_world_def ex_store_def ex_request_def)
  note t = cookie_rewrite_shadow_only[OF w p]
  have s: "store ex_world = ex_store" by (simp add: ex_world_def)
  have e: "header_of ex_store (Header ex_request) ''Cookie'' = Some [''PHPSESSID=abc'']"
    "header_of ex_store (Header ex_request) ''Accept'' = Some [''text/html'', ''*/*'']"
    by (simp_all add: header_of_def ex_store_def ex_request_def)
  have v: "Value (name_value ''PHPSESSID'' ''abc'') = ''abc''" by (simp add: name_value_def)
  have hit: "cache_Get (SessionCache ex_world) (lookup_time ex_env)
               (Value (name_value ''PHPSESSID'' ''abc'')) = Some ''qqq''"
    unfolding v by (rule ex_hit)
  have t': "header_of (store wd') (Header prim) = header_of ex_store (Header ex_request)"
    "header_of (store wd') (Header alt) =
       (header_of ex_store (Header ex_request))(''Cookie'' \<mapsto> [''PHPSESSID=qqq''])"
    using t by (simp_all add: s ex_cookie hit ex_sanitize)
  show ?thesis using w e unfolding p by (simp add: t')
qed





text \<open>
  The rewritten line read back. A value whose bytes are all valid cookie-value bytes, as
  every value parsed from a \<open>Set-Cookie\<close> line is, comes back unchanged when a backend
  reads the line that \<open>AddCookie\<close> wrote, quoted or not.
\<close>

lemma split_on_none: "d \<notin> set s \<Longrightarrow> split_on d s = [s]"
  by (induction s) auto

lemma TrimString_id:
  assumes "s \<noteq> []" "\<not> is_space (hd s)" "\<not> is_space (last s)"
  shows "TrimString s = s"
proof -
  from assms(1,2) have a: "dropWhile is_space s = s" by (cases s) auto
  from assms(1,3) have b: "dropWhile is_space (rev s) = rev s"
    by (cases "rev s") (auto simp: last_rev[symmetric] hd_rev)
  show ?thesis by (simp add: TrimString_def a b)
qed

lemma valid_not_special:
  "validCookieValueByte b \<Longrightarrow> b \<noteq> CHR 0x22 \<and> b \<noteq> CHR '';'' \<and> b \<noteq> CHR 0x09"
  by (auto simp: validCookieValueByte_def)

lemma sanitize_valid:
  assumes "list_all validCookieValueByte v"
  shows "sanitizeCookieValue v =
           (if list_ex (\<lambda>c. c = CHR '' '' \<or> c = CHR '','') v
            then [CHR 0x22] @ v @ [CHR 0x22] else v)"
proof -
  have "filter validCookieValueByte v = v" using assms by (simp add: list_all_iff)
  then show ?thesis by (simp add: sanitizeCookieValue_def Let_def)
qed

lemma parse_sanitized:
  assumes "list_all validCookieValueByte v"
  shows "parseCookieValue (sanitizeCookieValue v) True = Some v"
proof (cases "list_ex (\<lambda>c. c = CHR '' '' \<or> c = CHR '','') v")
  case True
  then show ?thesis using assms
    by (simp add: sanitize_valid parseCookieValue_def Let_def butlast_append)
next
  case False
  have "\<not> (1 < length v \<and> hd v = CHR 0x22 \<and> last v = CHR 0x22)"
  proof (cases v)
    case Nil then show ?thesis by simp
  next
    case (Cons b bs)
    then have "validCookieValueByte b" using assms by simp
    then show ?thesis using Cons valid_not_special by auto
  qed
  then show ?thesis using False assms
    by (auto simp: sanitize_valid parseCookieValue_def Let_def)
qed

lemma sanitized_line_shape:
  assumes "list_all validCookieValueByte v"
  shows "CHR '';'' \<notin> set (sanitizeCookieValue v)"
    and "sanitizeCookieValue v \<noteq> [] \<Longrightarrow> \<not> is_space (last (sanitizeCookieValue v))"
proof -
  have nv: "\<And>b. b \<in> set v \<Longrightarrow> b \<noteq> CHR '';'' \<and> b \<noteq> CHR 0x09"
    using assms valid_not_special by (auto simp: list_all_iff)
  show "CHR '';'' \<notin> set (sanitizeCookieValue v)"
    using nv by (auto simp: sanitize_valid[OF assms])
  show "\<not> is_space (last (sanitizeCookieValue v))" if "sanitizeCookieValue v \<noteq> []"
  proof (cases "list_ex (\<lambda>c. c = CHR '' '' \<or> c = CHR '','') v")
    case True
    then show ?thesis by (simp add: sanitize_valid[OF assms] is_space_def)
  next
    case False
    then have s: "sanitizeCookieValue v = v" by (simp add: sanitize_valid[OF assms])
    with that have "last v \<in> set v" by simp
    then have "last v \<noteq> CHR '' '' \<and> last v \<noteq> CHR 0x09"
      using False nv by (auto simp: list_ex_iff)
    then show ?thesis by (simp add: s is_space_def)
  qed
qed

lemma rewritten_cookie_read_back:
  assumes "list_all validCookieValueByte sid"
  shows "readCookies [''PHPSESSID='' @ sanitizeCookieValue sid] cookieName =
           [name_value ''PHPSESSID'' sid]"
proof -
  let ?s = "sanitizeCookieValue sid"
  let ?line = "''PHPSESSID='' @ ?s"
  have last_ok: "\<not> is_space (last ?line)"
    using sanitized_line_shape(2)[OF assms] by (cases "?s = []") (simp_all add: is_space_def)
  have trim: "TrimString ?line = ?line"
    using last_ok by (intro TrimString_id) (simp_all add: is_space_def)
  have nosemi: "CHR '';'' \<notin> set ?line"
    using sanitized_line_shape(1)[OF assms] by simp
  have name: "TrimString ''PHPSESSID'' = ''PHPSESSID''" "isCookieNameValid ''PHPSESSID''"
    by code_simp+
  note trim' = trim[simplified]
  have part: "readCookie_part cookieName ?line = Some (name_value ''PHPSESSID'' sid)"
    by (simp add: readCookie_part_def trim' Let_def name cookieName_def
        parse_sanitized[OF assms])
  note part' = part[simplified]
  note split' = split_on_none[OF nosemi, simplified]
  show ?thesis
    by (simp add: readCookies_def trim' split' part')
qed

section \<open>The request cycle\<close>

lemma dispatch_eq:
  "dispatch t be v r wd =
     (outcome be,
      wd\<lparr>stdout := stdout wd @ (if v then error_line t be else []),
         trace := trace wd @ attempt t be (snapshot (store wd) r)\<rparr>)"
  by (simp add: dispatch_def outcome_def attempt_def error_line_def note_event_def say_def
      Let_def split: call.splits)

lemma error_line_none:
  "outcome be = Ok r \<Longrightarrow> error_line t be = []"
  "outcome be = Panic p \<Longrightarrow> error_line t be = []"
  by (auto simp: outcome_def error_line_def split: call.splits)

lemma error_line_one: "outcome be = Err e \<Longrightarrow> length (error_line t be) = 1"
  by (auto simp: outcome_def error_line_def split: call.splits)

lemma shadow_unit_eq:
  "shadow_unit hnd ev pc alt wd =
     (let wd1 = wd\<lparr>stdout := stdout wd @
                      (if debug ev then failure_line (Alternative hnd) (alternate ev) else []),
                    trace := trace wd @
                      attempt (Alternative hnd) (alternate ev) (snapshot (store wd) alt)\<rparr>
      in case learn ev pc of
           None \<Rightarrow> wd1
         | Some (k, v) \<Rightarrow>
             wd1\<lparr>SessionCache :=
                    cache_Set (SessionCache wd) (update_time ev) k v DefaultExpiration,
                  trace := trace wd1 @ [CacheSet k v]\<rparr>)"
proof (cases "outcome (alternate ev)")
  case (Ok r)
  then show ?thesis
    by (simp add: shadow_unit_def shadow_body_def dispatch_eq failure_line_def learn_def
        note_event_def say_def Let_def error_line_none split: option.splits)
next
  case (Err e)
  then show ?thesis
    by (simp add: shadow_unit_def shadow_body_def dispatch_eq failure_line_def learn_def
        note_event_def say_def Let_def split: option.splits)
next
  case (Panic p)
  then show ?thesis
    by (simp add: shadow_unit_def shadow_body_def dispatch_eq failure_line_def learn_def
        note_event_def say_def Let_def error_line_none split: option.splits)
qed


lemma rewrite_cookie_frame:
  "trace (rewrite_cookie ev req alt wd) = trace wd \<and>
   client (rewrite_cookie ev req alt wd) = client wd \<and>
   SessionCache (rewrite_cookie ev req alt wd) = SessionCache wd \<and>
   fault (rewrite_cookie ev req alt wd) = fault wd"
  by (simp add: rewrite_cookie_def say_def Let_def split: option.splits)

lemma prepare_frame:
  assumes "prepare ev req wd = ((alt, prim), wd1)"
  shows "trace wd1 = trace wd" "client wd1 = client wd" "SessionCache wd1 = SessionCache wd"
    "fault wd1 = fault wd"
proof -
  obtain a p st where dup: "DuplicateRequest req (store wd) = ((a, p), st)"
    by (metis prod.exhaust)
  from assms have wd1: "wd1 = rewrite_cookie ev req a (wd\<lparr>store := st\<rparr>)"
    unfolding prepare_unfold[OF dup] by auto
  show "trace wd1 = trace wd" "client wd1 = client wd" "SessionCache wd1 = SessionCache wd"
    "fault wd1 = fault wd"
    by (simp_all add: wd1 rewrite_cookie_frame)
qed

lemma ServeHTTP_eq:
  assumes "prepare ev req wd = ((alt, prim), wd1)"
  shows "ServeHTTP hnd ev req wd =
     (let wd2 = wd1\<lparr>stdout := stdout wd1 @ error_line (Target hnd) (production ev),
                    trace := trace wd1 @
                      attempt (Target hnd) (production ev) (snapshot (store wd1) prim)\<rparr>
      in case outcome (production ev) of
           Err e \<Rightarrow> wd2
         | Panic p \<Rightarrow> wd2\<lparr>fault := Some p\<rparr>
         | Ok resp \<Rightarrow>
             shadow_unit hnd ev (FindCookie ev resp cookieName) alt
               (wd2\<lparr>client := relay resp (client wd1), trace := trace wd2 @ [Spawn]\<rparr>))"
  using assms
  by (simp add: ServeHTTP_def dispatch_eq note_event_def Let_def split: call.splits)


lemma attempt_quiet: "cache_writes (attempt t be wr) = []" "Spawn \<notin> set (attempt t be wr)"
  by (auto simp: attempt_def split: call.splits)




lemma shadow_unit_frame:
  "client (shadow_unit hnd ev pc alt wd) = client wd"
  "fault (shadow_unit hnd ev pc alt wd) = fault wd"
  "store (shadow_unit hnd ev pc alt wd) = store wd"
  by (simp_all add: shadow_unit_eq Let_def split: option.splits)

lemma ServeHTTP_client:
  "client (ServeHTTP hnd ev req wd) =
     (case outcome (production ev) of Ok resp \<Rightarrow> relay resp (client wd) | _ \<Rightarrow> client wd)"
proof -
  obtain alt prim wd1 where p: "prepare ev req wd = ((alt, prim), wd1)"
    by (metis prod.exhaust)
  show ?thesis
    by (simp add: ServeHTTP_eq[OF p] prepare_frame[OF p] shadow_unit_frame Let_def
        split: call.splits)
qed

lemma ServeHTTP_fault:
  "fault (ServeHTTP hnd ev req wd) =
     (case outcome (production ev) of Panic p \<Rightarrow> Some p | _ \<Rightarrow> fault wd)"
proof -
  obtain alt prim wd1 where p: "prepare ev req wd = ((alt, prim), wd1)"
    by (metis prod.exhaust)
  show ?thesis
    by (simp add: ServeHTTP_eq[OF p] prepare_frame[OF p] shadow_unit_frame Let_def
        split: call.splits)
qed






lemma ex_outcomes:
  "outcome (production ex_env) = Ok ex_primary_response"
  "outcome (alternate ex_env) = Ok ex_shadow_response"
  by (simp_all add: outcome_def ex_env_def ex_production_def ex_alternate_def)


lemma ex_found:
  "FindCookie ex_env ex_primary_response cookieName = Some (name_value ''PHPSESSID'' ''xyz'')"
  "FindCookie ex_env ex_shadow_response cookieName = Some (name_value ''phpsessid'' ''rst'')"
  by code_simp+

lemma ex_correlation: "correlation ex_env = Some (''xyz'', ''rst'')"
  by (simp add: correlation_def ex_outcomes ex_found name_value_def)







text \<open>
  Claim C5. When the production dispatch stops at an error of dialling, writing or
  reading, the handler leaves the response writer, the cache and the fault state as they
  were. The events of the cycle are those of the one failed dispatch: the detached unit
  is not started and nothing is written to the cache.
\<close>

theorem primary_failure_aborts:
  assumes "is_error (outcome (production ev))"
  shows "client (ServeHTTP hnd ev req wd) = client wd \<and>
         SessionCache (ServeHTTP hnd ev req wd) = SessionCache wd \<and>
         fault (ServeHTTP hnd ev req wd) = fault wd \<and>
         (case prepare ev req wd of
            ((alt, prim), wd1) \<Rightarrow>
              trace (ServeHTTP hnd ev req wd) =
                trace wd @ attempt (Target hnd) (production ev) (snapshot (store wd1) prim)) \<and>
         Spawn \<notin> set (drop (length (trace wd)) (trace (ServeHTTP hnd ev req wd))) \<and>
         cache_writes (drop (length (trace wd)) (trace (ServeHTTP hnd ev req wd))) = []"
proof -
  obtain alt prim wd1 where p: "prepare ev req wd = ((alt, prim), wd1)"
    by (metis prod.exhaust)
  from assms obtain e where e: "outcome (production ev) = Err e"
    by (auto simp: is_error_def split: call.splits)
  have s: "ServeHTTP hnd ev req wd =
             wd1\<lparr>stdout := stdout wd1 @ error_line (Target hnd) (production ev),
                 trace := trace wd @
                   attempt (Target hnd) (production ev) (snapshot (store wd1) prim)\<rparr>"
    by (simp add: ServeHTTP_eq[OF p] e prepare_frame[OF p] Let_def)
  show ?thesis
    unfolding p by (simp add: s prepare_frame[OF p] attempt_quiet)
qed


theorem primary_failure_aborts_witness:
  "is_error (outcome (production ex_env_down)) \<and>
   client (ServeHTTP ex_handler ex_env_down ex_request ex_world) = fresh_writer \<and>
   SessionCache (ServeHTTP ex_handler ex_env_down ex_request ex_world) = ex_cache \<and>
   fault (ServeHTTP ex_handler ex_env_down ex_request ex_world) = None \<and>
   trace (ServeHTTP ex_handler ex_env_down ex_request ex_world) = [Dial ''localhost:8080'']"
proof -
  obtain alt prim wd1 where p: "prepare ex_env_down ex_request ex_world = ((alt, prim), wd1)"
    by (metis prod.exhaust)
  have o: "outcome (production ex_env_down) = Err ''connection refused''"
    by (simp add: outcome_def ex_env_down_def ex_env_def ex_production_def)
  then have e: "is_error (outcome (production ex_env_down))" by (simp add: is_error_def)
  have a: "attempt t (production ex_env_down) wr = [Dial t]" for t wr
    by (simp add: attempt_def ex_env_down_def ex_env_def ex_production_def)
  have v: "client ex_world = fresh_writer" "SessionCache ex_world = ex_cache"
    "fault ex_world = None" "trace ex_world = []" "Target ex_handler = ''localhost:8080''"
    by (simp_all add: ex_world_def ex_handler_def)
  note t = primary_failure_aborts[OF e, where hnd=ex_handler and req=ex_request and wd=ex_world]
  show ?thesis using t e unfolding p by (simp add: a v)
qed


text \<open>
  Claim C8. When the alternative dispatch fails, by an error or by a panic, the detached
  unit still ends normally: no fault leaves it, and response writer, cache and store are
  as before. The log gains exactly one line under \<open>-debug\<close> and nothing otherwise. What
  the caller is sent, and whether the handler faults, does not depend on the alternative
  backend at all.
\<close>

theorem shadow_failure_contained:
  assumes "failed (outcome (alternate ev))"
  shows "fault (shadow_unit hnd ev pc alt wd) = fault wd \<and>
         client (shadow_unit hnd ev pc alt wd) = client wd \<and>
         SessionCache (shadow_unit hnd ev pc alt wd) = SessionCache wd \<and>
         store (shadow_unit hnd ev pc alt wd) = store wd \<and>
         stdout (shadow_unit hnd ev pc alt wd) =
           stdout wd @ (if debug ev then failure_line (Alternative hnd) (alternate ev) else []) \<and>
         length (failure_line (Alternative hnd) (alternate ev)) = 1 \<and>
         (\<forall>be. client (ServeHTTP hnd (ev\<lparr>alternate := be\<rparr>) req wd) =
                 client (ServeHTTP hnd ev req wd) \<and>
               fault (ServeHTTP hnd (ev\<lparr>alternate := be\<rparr>) req wd) =
                 fault (ServeHTTP hnd ev req wd))"
proof -
  from assms have l: "learn ev pc = None"
    by (auto simp: failed_def learn_def split: call.splits option.splits)
  have n: "length (failure_line (Alternative hnd) (alternate ev)) = 1"
    using assms error_line_one[of "alternate ev"]
    by (auto simp: failed_def failure_line_def split: call.splits)
  show ?thesis
    using n by (simp add: shadow_unit_eq l Let_def ServeHTTP_client ServeHTTP_fault)
qed


theorem shadow_failure_contained_witness:
  "failed (outcome (alternate ex_env_shadow_panics)) \<and>
   stdout (shadow_unit ex_handler ex_env_shadow_panics None ex_request ex_world) =
     [Recovered ''nil pointer''] \<and>
   fault (shadow_unit ex_handler ex_env_shadow_panics None ex_request ex_world) = None \<and>
   SessionCache (shadow_unit ex_handler ex_env_shadow_panics None ex_request ex_world) = ex_cache \<and>
   client (ServeHTTP ex_handler ex_env_shadow_panics ex_request ex_world) =
     client (ServeHTTP ex_handler (ex_env_shadow_panics\<lparr>alternate := ex_alternate\<rparr>)
               ex_request ex_world)"
proof -
  have o: "outcome (alternate ex_env_shadow_panics) = Panic ''nil pointer''"
    by (simp add: outcome_def ex_env_shadow_panics_def ex_env_def ex_alternate_def)
  then have e: "failed (outcome (alternate ex_env_shadow_panics))" by (simp add: failed_def)
  have v: "debug ex_env_shadow_panics" "stdout ex_world = []" "fault ex_world = None"
    "SessionCache ex_world = ex_cache"
    by (simp_all add: ex_env_shadow_panics_def ex_env_def ex_world_def)
  have fl: "failure_line t (alternate ex_env_shadow_panics) = [Recovered ''nil pointer'']" for t
    by (simp add: failure_line_def o)
  note t = shadow_failure_contained[OF e, where hnd=ex_handler and pc=None and alt=ex_request
      and wd=ex_world and req=ex_request]
  have c: "client (ServeHTTP ex_handler (ex_env_shadow_panics\<lparr>alternate := ex_alternate\<rparr>)
                     ex_request ex_world) =
           client (ServeHTTP ex_handler ex_env_shadow_panics ex_request ex_world)"
    using t by blast
  show ?thesis using t e c by (simp add: v fl)
qed



text \<open>The first scenario of the specification: the cycle leaves a live entry from
  \<open>xyz\<close> to \<open>rst\<close>.\<close>

lemma scenario_1:
  "correlation ex_env = Some (''xyz'', ''rst'') \<and>
   cache_Get (SessionCache (ServeHTTP ex_handler ex_env ex_request ex_world))
     (update_time ex_env + 1) ''xyz'' = Some ''rst''"
proof -
  have "SessionCache (ServeHTTP ex_handler ex_env ex_request ex_world) =
        cache_Set (SessionCache ex_world) (update_time ex_env) ''xyz'' ''rst'' DefaultExpiration"
  proof -
    obtain alt prim wd1 where p: "prepare ex_env ex_request ex_world = ((alt, prim), wd1)"
      by (metis prod.exhaust)
    show ?thesis
      by (simp add: ServeHTTP_eq[OF p] shadow_unit_eq prepare_frame[OF p] Let_def ex_outcomes
          ex_found learn_def name_value_def)
  qed
  then have "cache_Get (SessionCache (ServeHTTP ex_handler ex_env ex_request ex_world))
     (update_time ex_env + 1) ''xyz'' = Some ''rst''"
    by (simp add: cache_Set_def cache_Get_def DefaultExpiration_def
        ex_world_def ex_cache_def ex_env_def Let_def)
  with ex_correlation show ?thesis by simp
qed

section \<open>An unreadable body\<close>





section \<open>Case of the cookie name\<close>

text \<open>In a response, a cookie whose name equals the wanted one under case folding is
  found. In a request, the cookie found bears the wanted name exactly.\<close>

lemma FindCookie_folds:
  assumes "c \<in> set (Cookies ev resp)" and "EqualFold (Name c) wanted"
  shows "\<exists>c'. FindCookie ev resp wanted = Some c' \<and> EqualFold (Name c') wanted"
proof (cases "FindCookie ev resp wanted")
  case None
  then show ?thesis using assms by (auto simp: FindCookie_def find_None_iff)
next
  case (Some c')
  then show ?thesis by (auto simp: FindCookie_def find_Some_iff)
qed

lemma Request_Cookie_exact:
  "Request_Cookie r wanted h = Some c \<Longrightarrow> wanted \<noteq> [] \<Longrightarrow> Name c = wanted"
  using Request_Cookie_shape by blast

text \<open>
  Claim C7 at an input where the code departs from it. The request carries the cookie
  \<open>phpsessid=abc\<close> and the cache maps \<open>abc\<close> to \<open>qqq\<close>. \<open>FindCookie\<close> finds a cookie
  of that lower-case name in a response, but \<open>Request.Cookie\<close> compares names exactly:
  the lookup in the request finds nothing, and the alternative copy keeps the cookie
  unchanged.
\<close>

theorem request_lookup_is_case_sensitive:
  "EqualFold ''phpsessid'' cookieName \<and>
   FindCookie ex_env ex_shadow_response cookieName = Some (name_value ''phpsessid'' ''rst'') \<and>
   readCookies (header_lines (Header ex_request) ''Cookie'' (store ex_lower_world)) [] =
     [name_value ''phpsessid'' ''abc''] \<and>
   cache_Get (SessionCache ex_lower_world) (lookup_time ex_env) ''abc'' = Some ''qqq'' \<and>
   Request_Cookie ex_request cookieName (store ex_lower_world) = None \<and>
   (case prepare ex_env ex_request ex_lower_world of
      ((alt, prim), wd') \<Rightarrow>
        header_lines (Header alt) ''Cookie'' (store wd') = [''phpsessid=abc''] \<and>
        stdout wd' = [FailedReadCookie ''PHPSESSID''])"
  by code_simp

end
